theory Spec2Isabelle
  imports Main "HOL-Library.Sublist"
begin

section \<open>Error codes and messages (rar\_native.h, rar\_native.c)\<close>

text \<open>
  The library reports its outcome as a C \<open>int\<close>. The codes are the macros of
  \<^verbatim>\<open>rar_native.h\<close>; they are kept as integers because
  \<^verbatim>\<open>rar_get_error_message\<close> accepts every integer, not only the defined ones.
\<close>

definition RAR_SUCCESS :: int where "RAR_SUCCESS = 0"
definition RAR_FILE_NOT_FOUND :: int where "RAR_FILE_NOT_FOUND = 1"
definition RAR_OPEN_ERROR :: int where "RAR_OPEN_ERROR = 2"
definition RAR_CREATE_ERROR :: int where "RAR_CREATE_ERROR = 3"
definition RAR_MEMORY_ERROR :: int where "RAR_MEMORY_ERROR = 4"
definition RAR_BAD_ARCHIVE :: int where "RAR_BAD_ARCHIVE = 5"
definition RAR_UNKNOWN_FORMAT :: int where "RAR_UNKNOWN_FORMAT = 6"
definition RAR_BAD_PASSWORD :: int where "RAR_BAD_PASSWORD = 7"
definition RAR_BAD_DATA :: int where "RAR_BAD_DATA = 8"
definition RAR_UNKNOWN_ERROR :: int where "RAR_UNKNOWN_ERROR = 9"

text \<open>The static table \<^verbatim>\<open>error_messages[]\<close>, indexed by error code.\<close>

definition error_messages :: "string list" where
  "error_messages =
    [''Success'',
     ''RAR file not found'',
     ''Failed to open RAR archive'',
     ''Failed to create output file'',
     ''Memory allocation error'',
     ''Corrupt or invalid RAR archive'',
     ''Unknown archive format (not a valid RAR file)'',
     ''Incorrect password or password required'',
     ''Data error in archive (CRC check failed)'',
     ''Unknown error'']"

text \<open>
  \<^verbatim>\<open>rar_get_error_message\<close>: the range check comes first, so the table is only
  ever indexed inside its bounds.
\<close>

definition rar_get_error_message :: "int \<Rightarrow> string" where
  "rar_get_error_message error_code =
     (if error_code < 0 \<or> error_code > RAR_UNKNOWN_ERROR
      then error_messages ! nat RAR_UNKNOWN_ERROR
      else error_messages ! nat error_code)"

section \<open>The platform and libarchive, as the code observes them\<close>

text \<open>
  The POSIX build is modelled: \<^verbatim>\<open>PATH_SEP\<close> is \<open>/\<close> and the drive-letter
  skip of the Windows build is absent. The \<^verbatim>\<open>errno\<close> values are those of
  \<^verbatim>\<open><errno.h>\<close>; the code only compares against them.
\<close>

definition PATH_SEP :: char where "PATH_SEP = CHR ''/''"

definition ENOENT :: int where "ENOENT = 2"
definition ENOMEM :: int where "ENOMEM = 12"
definition EEXIST :: int where "EEXIST = 17"

text \<open>The status codes that libarchive's calls return.\<close>

datatype status =
  ARCHIVE_OK | ARCHIVE_EOF | ARCHIVE_RETRY | ARCHIVE_WARN | ARCHIVE_FAILED | ARCHIVE_FATAL

text \<open>
  The error state of an archive object, as read back by \<^verbatim>\<open>archive_errno\<close> and
  \<^verbatim>\<open>archive_error_string\<close> (\<open>None\<close> is the \<^verbatim>\<open>NULL\<close> string).
\<close>

record archive_error =
  err_no :: int
  err_string :: "string option"

definition no_error :: archive_error where
  "no_error = \<lparr>err_no = 0, err_string = None\<rparr>"

text \<open>
  One round of the loop of \<^verbatim>\<open>copy_data\<close>: what
  \<^verbatim>\<open>archive_read_data_block\<close> returns (status, the reader's error state after
  the call, the block) and what \<^verbatim>\<open>archive_write_data_block\<close> returns for it.
\<close>

record block_step =
  read_status :: status
  read_error :: archive_error
  block_data :: string
  block_offset :: int
  write_status :: status

text \<open>
  An entry as the code sees it: the two accessors it calls
  (\<^verbatim>\<open>archive_entry_pathname\<close>, which may be \<^verbatim>\<open>NULL\<close>, and
  \<^verbatim>\<open>archive_entry_size\<close>) and the answers of libarchive to the calls made
  while the entry is current. A list of block steps that runs out stands for
  \<^verbatim>\<open>ARCHIVE_EOF\<close>.
\<close>

record entry =
  pathname :: "string option"
  entry_size :: int
  skip_status :: status
  write_header_status :: status
  write_header_error :: archive_error
  blocks :: "block_step list"
  finish_status :: status
  finish_error :: archive_error

text \<open>One call of \<^verbatim>\<open>archive_read_next_header\<close>.\<close>

record header_result =
  h_status :: status
  h_error :: archive_error
  h_entry :: entry

text \<open>
  The behaviour of the reader on one file: the answer to
  \<^verbatim>\<open>archive_read_open_filename\<close> and the answers to the successive
  \<^verbatim>\<open>archive_read_next_header\<close> calls. The file is finite, so the list is;
  when it runs out the reader answers \<^verbatim>\<open>ARCHIVE_EOF\<close>.
\<close>

record archive_script =
  open_status :: status
  open_error :: archive_error
  headers :: "header_result list"

datatype extract_flag =
  ARCHIVE_EXTRACT_TIME | ARCHIVE_EXTRACT_PERM | ARCHIVE_EXTRACT_ACL | ARCHIVE_EXTRACT_FFLAGS

text \<open>
  The effects of the code on the outside: the callbacks it invokes, the allocations and
  \<^verbatim>\<open>mkdir\<close> calls it makes, and the calls on the reader and on the disk
  writer that change something. A run yields the list of its effects in order.
\<close>

datatype event =
    ErrorCb string
  | ListCb string
  | Alloc
  | Mkdir string
  | AddPassphrase string
  | SetOptions "extract_flag list"
  | OpenFilename string
  | DataSkip
  | WriteHeader string
  | WriteDataBlock string int
  | FinishEntry

text \<open>
  The environment of a call. \<open>fopen_ok\<close> tells whether \<^verbatim>\<open>fopen(path, "rb")\<close>
  succeeds. \<open>alloc_ok\<close> and \<open>mkdir_res\<close> answer an allocation and a
  \<^verbatim>\<open>mkdir\<close> (return value and \<^verbatim>\<open>errno\<close>) from the effects so far.
  \<open>archive\<close> gives the behaviour of libarchive on a file once the given passphrases
  have been registered.
\<close>

record env =
  fopen_ok :: "string \<Rightarrow> bool"
  alloc_ok :: "event list \<Rightarrow> bool"
  mkdir_res :: "event list \<Rightarrow> string \<Rightarrow> int \<times> int"
  archive :: "string \<Rightarrow> string list \<Rightarrow> archive_script"

definition sys_alloc :: "env \<Rightarrow> event list \<Rightarrow> bool \<times> event list" where
  "sys_alloc env tr = (alloc_ok env tr, tr @ [Alloc])"

text \<open>\<^verbatim>\<open>if (error_cb) error_cb(msg);\<close> with \<open>error_cb\<close> true for a non-null callback.\<close>

definition call_error_cb :: "bool \<Rightarrow> string \<Rightarrow> event list \<Rightarrow> event list" where
  "call_error_cb error_cb msg tr = (if error_cb then tr @ [ErrorCb msg] else tr)"

section \<open>Helpers of rar\_native.c\<close>

text \<open>\<^verbatim>\<open>strstr(hay, needle) != NULL\<close>: the needle occurs in the haystack.\<close>

fun strstr :: "string \<Rightarrow> string \<Rightarrow> bool" where
  "strstr [] needle = (needle = [])"
| "strstr (c # cs) needle = (prefix needle (c # cs) \<or> strstr cs needle)"

text \<open>\<^verbatim>\<open>strrchr(s, c)\<close>: the index of the last occurrence, \<open>None\<close> for \<^verbatim>\<open>NULL\<close>.\<close>

fun strrchr :: "string \<Rightarrow> char \<Rightarrow> nat option" where
  "strrchr [] c = None"
| "strrchr (x # xs) c =
     (case strrchr xs c of
        Some i \<Rightarrow> Some (Suc i)
      | None \<Rightarrow> if x = c then Some 0 else None)"

text \<open>
  \<^verbatim>\<open>map_archive_error\<close>: the return value is decided by \<^verbatim>\<open>errno\<close> first
  and then by substrings of the error text, in the order of the source.
\<close>

definition map_archive_error_code :: "archive_error \<Rightarrow> int" where
  "map_archive_error_code a =
    (let err = err_no a; err_str = err_string a in
     if err = ENOENT then RAR_FILE_NOT_FOUND
     else if err = ENOMEM then RAR_MEMORY_ERROR
     else
       (case err_str of
          None \<Rightarrow> RAR_UNKNOWN_ERROR
        | Some s \<Rightarrow>
            if strstr s ''password'' \<or> strstr s ''Password'' \<or>
               strstr s ''encrypted'' \<or> strstr s ''Encrypted'' then RAR_BAD_PASSWORD
            else if strstr s ''corrupt'' \<or> strstr s ''Corrupt'' \<or>
               strstr s ''invalid'' \<or> strstr s ''Invalid'' then RAR_BAD_ARCHIVE
            else if strstr s ''CRC'' \<or> strstr s ''checksum'' then RAR_BAD_DATA
            else if strstr s ''format'' \<or> strstr s ''Format'' then RAR_UNKNOWN_FORMAT
            else RAR_UNKNOWN_ERROR))"

definition map_archive_error :: "archive_error \<Rightarrow> bool \<Rightarrow> event list \<Rightarrow> int \<times> event list" where
  "map_archive_error a error_cb tr =
     (map_archive_error_code a,
      case err_string a of
        Some s \<Rightarrow> call_error_cb error_cb s tr
      | None \<Rightarrow> tr)"

text \<open>
  \<^verbatim>\<open>create_directory_recursive\<close>. The loop walks the copy of the path and calls
  \<^verbatim>\<open>mkdir\<close> on the text before each separator it meets; \<open>mkdir_prefixes seen rest\<close>
  lists those arguments, \<open>seen\<close> being the text before the cursor and \<open>rest\<close> the text
  from the cursor on. The results of these calls are ignored; only the last
  \<^verbatim>\<open>mkdir\<close>, on the whole path, decides the return value.
\<close>

fun mkdir_prefixes :: "string \<Rightarrow> string \<Rightarrow> string list" where
  "mkdir_prefixes seen [] = []"
| "mkdir_prefixes seen (c # cs) =
     (if c = PATH_SEP then seen # mkdir_prefixes (seen @ [c]) cs
      else mkdir_prefixes (seen @ [c]) cs)"

definition create_directory_recursive :: "env \<Rightarrow> string \<Rightarrow> event list \<Rightarrow> int \<times> event list" where
  "create_directory_recursive env path tr =
    (let (copied, tr1) = sys_alloc env tr in
     if \<not> copied then (- 1, tr1)
     else
       let k = (case path of [] \<Rightarrow> 0 | c # _ \<Rightarrow> if c = PATH_SEP then 1 else (0::nat));
           tr2 = tr1 @ map Mkdir (mkdir_prefixes (take k path) (drop k path));
           (result, errno) = mkdir_res env tr2 path;
           tr3 = tr2 @ [Mkdir path]
       in (if result = 0 \<or> errno = EEXIST then 0 else - 1, tr3))"

text \<open>
  \<^verbatim>\<open>get_parent_directory\<close>: the copy of the path cut at its last separator,
  unless that separator is the first character; \<open>None\<close> when the copy cannot be
  allocated.
\<close>

definition get_parent_directory :: "env \<Rightarrow> string \<Rightarrow> event list \<Rightarrow> string option \<times> event list" where
  "get_parent_directory env path tr =
    (let (copied, tr1) = sys_alloc env tr in
     if \<not> copied then (None, tr1)
     else
       let last_sep = (case strrchr path PATH_SEP of
                         None \<Rightarrow> strrchr path (CHR ''/'')
                       | Some i \<Rightarrow> Some i)
       in (case last_sep of
             None \<Rightarrow> (Some path, tr1)
           | Some i \<Rightarrow> if i \<noteq> 0 then (Some (take i path), tr1) else (Some path, tr1)))"

text \<open>
  \<^verbatim>\<open>copy_data\<close>. The second argument is the reader's error state, which each
  \<^verbatim>\<open>archive_read_data_block\<close> replaces; it is returned because the caller maps
  the reader's error state also when it was the write that failed.
\<close>

fun copy_data :: "block_step list \<Rightarrow> archive_error \<Rightarrow> event list \<Rightarrow> status \<times> archive_error \<times> event list" where
  "copy_data [] aerr tr = (ARCHIVE_OK, aerr, tr)"
| "copy_data (b # bs) aerr tr =
     (if read_status b = ARCHIVE_EOF then (ARCHIVE_OK, read_error b, tr)
      else if read_status b \<noteq> ARCHIVE_OK then (read_status b, read_error b, tr)
      else
        let tr1 = tr @ [WriteDataBlock (block_data b) (block_offset b)] in
        if write_status b \<noteq> ARCHIVE_OK then (write_status b, read_error b, tr1)
        else copy_data bs (read_error b) tr1)"

section \<open>Extraction (rar\_extract)\<close>

text \<open>
  The body of the extraction loop for one entry. It either completes (\<open>Continue\<close>),
  leaves the loop by \<^verbatim>\<open>break\<close> with the values of \<open>r\<close> and \<open>result\<close> at that
  point and the reader's error state, or passes a \<^verbatim>\<open>NULL\<close> entry path to
  \<^verbatim>\<open>strlen\<close>, which is undefined behaviour (\<open>Crash\<close>).
\<close>

datatype step = Continue | Break status int archive_error | Crash

definition extract_entry ::
  "env \<Rightarrow> string \<Rightarrow> bool \<Rightarrow> entry \<Rightarrow> archive_error \<Rightarrow> event list \<Rightarrow> step \<times> event list" where
  "extract_entry env dest_path error_cb e aerr tr =
    (case pathname e of
       None \<Rightarrow> (Crash, tr)
     | Some entry_path \<Rightarrow>
        let (allocated, tr1) = sys_alloc env tr in
        if \<not> allocated then
          (Break ARCHIVE_OK RAR_MEMORY_ERROR aerr,
           call_error_cb error_cb ''Memory allocation failed'' tr1)
        else
          let full_path = dest_path @ [PATH_SEP] @ entry_path;
              (parent, tr2) = get_parent_directory env full_path tr1;
              tr3 = (case parent of
                       None \<Rightarrow> tr2
                     | Some d \<Rightarrow> snd (create_directory_recursive env d tr2));
              tr4 = tr3 @ [WriteHeader full_path]
          in
          if write_header_status e \<noteq> ARCHIVE_OK then
            (let (result, tr5) = map_archive_error (write_header_error e) error_cb tr4
             in (Break (write_header_status e) result aerr, tr5))
          else
            let (r, aerr1, tr5) =
                  (if entry_size e > 0 then copy_data (blocks e) aerr tr4
                   else (ARCHIVE_OK, aerr, tr4))
            in
            if r \<noteq> ARCHIVE_OK then
              (let (result, tr6) = map_archive_error aerr1 error_cb tr5
               in (Break r result aerr1, tr6))
            else
              let tr6 = tr5 @ [FinishEntry] in
              if finish_status e \<noteq> ARCHIVE_OK then
                (let (result, tr7) = map_archive_error (finish_error e) error_cb tr6
                 in (Break (finish_status e) result aerr1, tr7))
              else (Continue, tr6))"

text \<open>
  The \<^verbatim>\<open>while\<close> loop over \<^verbatim>\<open>archive_read_next_header\<close>. It ends with the
  last status \<open>r\<close>, the value of \<open>result\<close> and the reader's error state.
\<close>

datatype loop_exit = Exited status int archive_error | Crashed

fun extract_loop ::
  "env \<Rightarrow> string \<Rightarrow> bool \<Rightarrow> header_result list \<Rightarrow> event list \<Rightarrow> loop_exit \<times> event list" where
  "extract_loop env dest_path error_cb [] tr = (Exited ARCHIVE_EOF RAR_SUCCESS no_error, tr)"
| "extract_loop env dest_path error_cb (h # hs) tr =
     (if h_status h \<noteq> ARCHIVE_OK then (Exited (h_status h) RAR_SUCCESS (h_error h), tr)
      else
        (case extract_entry env dest_path error_cb (h_entry h) (h_error h) tr of
           (Continue, tr') \<Rightarrow> extract_loop env dest_path error_cb hs tr'
         | (Break r result aerr, tr') \<Rightarrow> (Exited r result aerr, tr')
         | (Crash, tr') \<Rightarrow> (Crashed, tr')))"

text \<open>
  The passphrases registered with the reader:
  \<^verbatim>\<open>if (password && strlen(password) > 0) archive_read_add_passphrase(a, password);\<close>
\<close>

definition passphrases :: "string option \<Rightarrow> string list" where
  "passphrases password =
     (case password of
        None \<Rightarrow> []
      | Some p \<Rightarrow> if length p > 0 then [p] else [])"

text \<open>
  \<^verbatim>\<open>rar_extract\<close>. The result is the returned code, or \<open>None\<close> when the run
  met undefined behaviour, together with the effects of the run.
\<close>

definition rar_extract ::
  "env \<Rightarrow> string \<Rightarrow> string \<Rightarrow> string option \<Rightarrow> bool \<Rightarrow> int option \<times> event list" where
  "rar_extract env rar_path dest_path password error_cb =
    (if \<not> fopen_ok env rar_path then
       (Some RAR_FILE_NOT_FOUND, call_error_cb error_cb ''RAR file not found'' [])
     else
       let (created, tr1) = create_directory_recursive env dest_path [] in
       if created \<noteq> 0 then
         (Some RAR_CREATE_ERROR,
          call_error_cb error_cb ''Failed to create destination directory'' tr1)
       else
         let (a_ok, tr2) = sys_alloc env tr1 in
         if \<not> a_ok then
           (Some RAR_MEMORY_ERROR, call_error_cb error_cb ''Failed to create archive reader'' tr2)
         else
           let tr3 = tr2 @ map AddPassphrase (passphrases password);
               (ext_ok, tr4) = sys_alloc env tr3
           in
           if \<not> ext_ok then
             (Some RAR_MEMORY_ERROR, call_error_cb error_cb ''Failed to create disk writer'' tr4)
           else
             let tr5 = tr4 @ [SetOptions [ARCHIVE_EXTRACT_TIME, ARCHIVE_EXTRACT_PERM,
                                           ARCHIVE_EXTRACT_ACL, ARCHIVE_EXTRACT_FFLAGS]];
                 ar = archive env rar_path (passphrases password);
                 tr6 = tr5 @ [OpenFilename rar_path]
             in
             if open_status ar \<noteq> ARCHIVE_OK then
               (let (result, tr7) = map_archive_error (open_error ar) error_cb tr6
                in (Some result, tr7))
             else
               (case extract_loop env dest_path error_cb (headers ar) tr6 of
                  (Crashed, tr7) \<Rightarrow> (None, tr7)
                | (Exited r result aerr, tr7) \<Rightarrow>
                    if r \<noteq> ARCHIVE_EOF \<and> result = RAR_SUCCESS then
                      (let (result', tr8) = map_archive_error aerr error_cb tr7
                       in (Some result', tr8))
                    else (Some result, tr7)))"

section \<open>Listing (rar\_list)\<close>

text \<open>
  The listing loop. The status of \<^verbatim>\<open>archive_read_data_skip\<close> is not read by the
  code, so \<open>skip_status\<close> does not occur on the right-hand side.
\<close>

fun list_loop ::
  "header_result list \<Rightarrow> bool \<Rightarrow> event list \<Rightarrow> status \<times> archive_error \<times> event list" where
  "list_loop [] list_cb tr = (ARCHIVE_EOF, no_error, tr)"
| "list_loop (h # hs) list_cb tr =
     (if h_status h \<noteq> ARCHIVE_OK then (h_status h, h_error h, tr)
      else
        let tr1 = (case pathname (h_entry h) of
                     None \<Rightarrow> tr
                   | Some p \<Rightarrow> if list_cb then tr @ [ListCb p] else tr);
            tr2 = tr1 @ [DataSkip]
        in list_loop hs list_cb tr2)"

definition rar_list ::
  "env \<Rightarrow> string \<Rightarrow> string option \<Rightarrow> bool \<Rightarrow> bool \<Rightarrow> int \<times> event list" where
  "rar_list env rar_path password list_cb error_cb =
    (if \<not> fopen_ok env rar_path then
       (RAR_FILE_NOT_FOUND, call_error_cb error_cb ''RAR file not found'' [])
     else
       let (a_ok, tr1) = sys_alloc env [] in
       if \<not> a_ok then
         (RAR_MEMORY_ERROR, call_error_cb error_cb ''Failed to create archive reader'' tr1)
       else
         let tr2 = tr1 @ map AddPassphrase (passphrases password);
             ar = archive env rar_path (passphrases password);
             tr3 = tr2 @ [OpenFilename rar_path]
         in
         if open_status ar \<noteq> ARCHIVE_OK then map_archive_error (open_error ar) error_cb tr3
         else
           let (r, aerr, tr4) = list_loop (headers ar) list_cb tr3 in
           if r \<noteq> ARCHIVE_EOF then map_archive_error aerr error_cb tr4
           else (RAR_SUCCESS, tr4))"

section \<open>Reading a run\<close>

text \<open>The names handed to the listing callback, the messages handed to the error
  callback, and the paths handed to the disk writer, each in order.\<close>

definition listed :: "event list \<Rightarrow> string list" where
  "listed tr = List.map_filter (\<lambda>ev. case ev of ListCb p \<Rightarrow> Some p | _ \<Rightarrow> None) tr"

definition reported :: "event list \<Rightarrow> string list" where
  "reported tr = List.map_filter (\<lambda>ev. case ev of ErrorCb m \<Rightarrow> Some m | _ \<Rightarrow> None) tr"

definition written :: "event list \<Rightarrow> string list" where
  "written tr = List.map_filter (\<lambda>ev. case ev of WriteHeader p \<Rightarrow> Some p | _ \<Rightarrow> None) tr"

section \<open>Notions used in the statements\<close>

text \<open>
  What libarchive must answer for an entry to pass through the loop body of
  \<^verbatim>\<open>rar_extract\<close>: it has a path, its header is written, its data (when its size
  is positive) is copied and it is finished, each with \<^verbatim>\<open>ARCHIVE_OK\<close>.
\<close>

definition entry_writes_ok :: "entry \<Rightarrow> bool" where
  "entry_writes_ok e =
     (pathname e \<noteq> None \<and> write_header_status e = ARCHIVE_OK \<and>
      (if entry_size e > 0 then fst (copy_data (blocks e) no_error []) = ARCHIVE_OK else True) \<and>
      finish_status e = ARCHIVE_OK)"

text \<open>
  Header tables: every header is read with \<^verbatim>\<open>ARCHIVE_OK\<close>; every entry also
  passes through the extraction loop; every entry has a path; the table has no entry
  at all, the first \<^verbatim>\<open>archive_read_next_header\<close> answering
  \<^verbatim>\<open>ARCHIVE_EOF\<close>.
\<close>

definition headers_ok :: "header_result list \<Rightarrow> bool" where
  "headers_ok hs = list_all (\<lambda>h. h_status h = ARCHIVE_OK) hs"

definition entries_ok :: "header_result list \<Rightarrow> bool" where
  "entries_ok hs = list_all (\<lambda>h. h_status h = ARCHIVE_OK \<and> entry_writes_ok (h_entry h)) hs"

definition named :: "header_result list \<Rightarrow> bool" where
  "named hs = list_all (\<lambda>h. pathname (h_entry h) \<noteq> None) hs"

definition no_entries :: "header_result list \<Rightarrow> bool" where
  "no_entries hs = (case hs of [] \<Rightarrow> True | h # _ \<Rightarrow> h_status h = ARCHIVE_EOF)"

text \<open>The paths of a header table that are not \<^verbatim>\<open>NULL\<close>, in table order, and
  the path under which \<^verbatim>\<open>rar_extract\<close> hands an entry to the disk writer.\<close>

definition names :: "header_result list \<Rightarrow> string list" where
  "names hs = List.map_filter (\<lambda>h. pathname (h_entry h)) hs"

definition out_path :: "string \<Rightarrow> header_result \<Rightarrow> string" where
  "out_path dest h = dest @ [PATH_SEP] @ the (pathname (h_entry h))"

text \<open>The directories on which \<^verbatim>\<open>create_directory_recursive\<close> calls
  \<^verbatim>\<open>mkdir\<close>, in order.\<close>

definition mkdir_calls :: "string \<Rightarrow> string list" where
  "mkdir_calls path =
     (let k = (case path of [] \<Rightarrow> 0 | c # _ \<Rightarrow> if c = PATH_SEP then 1 else (0::nat))
      in mkdir_prefixes (take k path) (drop k path) @ [path])"

text \<open>
  Pieces of a run, named so that the loops can be reasoned about one after the other:
  the effects of \<^verbatim>\<open>rar_extract\<close> and of \<^verbatim>\<open>rar_list\<close> up to and
  including the opening of the archive when nothing failed before, the effects of the
  loop body up to and including \<^verbatim>\<open>archive_write_header\<close>, the copy of the data
  as the loop body calls it, and the call of the error callback made by
  \<^verbatim>\<open>map_archive_error\<close>.
\<close>

definition tr_open :: "env \<Rightarrow> string \<Rightarrow> string \<Rightarrow> string option \<Rightarrow> event list" where
  "tr_open env rar_path dest_path password =
     snd (create_directory_recursive env dest_path []) @ [Alloc] @
     map AddPassphrase (passphrases password) @ [Alloc] @
     [SetOptions [ARCHIVE_EXTRACT_TIME, ARCHIVE_EXTRACT_PERM,
                  ARCHIVE_EXTRACT_ACL, ARCHIVE_EXTRACT_FFLAGS]] @
     [OpenFilename rar_path]"

definition tr_list_open :: "string \<Rightarrow> string option \<Rightarrow> event list" where
  "tr_list_open rar_path password =
     [Alloc] @ map AddPassphrase (passphrases password) @ [OpenFilename rar_path]"

definition tr_header :: "env \<Rightarrow> string \<Rightarrow> string \<Rightarrow> event list \<Rightarrow> event list" where
  "tr_header env dest p tr =
     (let full = dest @ [PATH_SEP] @ p;
          g = get_parent_directory env full (tr @ [Alloc])
      in (case fst g of None \<Rightarrow> snd g
          | Some d \<Rightarrow> snd (create_directory_recursive env d (snd g))) @ [WriteHeader full])"

definition copied :: "entry \<Rightarrow> archive_error \<Rightarrow> event list \<Rightarrow> status \<times> archive_error \<times> event list" where
  "copied e aerr tr4 =
     (if entry_size e > 0 then copy_data (blocks e) aerr tr4 else (ARCHIVE_OK, aerr, tr4))"

definition error_events :: "archive_error \<Rightarrow> bool \<Rightarrow> event list" where
  "error_events a error_cb =
     (case err_string a of None \<Rightarrow> [] | Some m \<Rightarrow> if error_cb then [ErrorCb m] else [])"

text \<open>
  Stated after the specification, not code of the repository: the lexical resolution of a
  path, in which an empty component and \<open>.\<close> are dropped and \<open>..\<close> removes the
  component before it, and the test whether a path so resolved leaves a root. The
  repository has no such function.
\<close>

fun split_path :: "string \<Rightarrow> string \<Rightarrow> string list" where
  "split_path cur [] = [cur]"
| "split_path cur (c # cs) =
     (if c = PATH_SEP then cur # split_path [] cs else split_path (cur @ [c]) cs)"

fun resolve_components :: "string list \<Rightarrow> string list \<Rightarrow> string list" where
  "resolve_components stack [] = rev stack"
| "resolve_components stack (c # cs) =
     (if c = [] \<or> c = ''.'' then resolve_components stack cs
      else if c = ''..'' then resolve_components (tl stack) cs
      else resolve_components (c # stack) cs)"

definition spec_escapes_destination :: "string \<Rightarrow> string \<Rightarrow> bool" where
  "spec_escapes_destination root p =
     (\<not> prefix (resolve_components [] (split_path [] root))
               (resolve_components [] (split_path [] p)))"

section \<open>Example environments\<close>

text \<open>
  Behaviours of libarchive and of the platform on which the code is run below: an entry
  without data that libarchive accepts; an entry whose first data block cannot be read,
  with a given error text; a header read with \<^verbatim>\<open>ARCHIVE_OK\<close>; an archive that
  opens and has the given entries; a platform on which every file opens, every allocation
  and every \<^verbatim>\<open>mkdir\<close> succeeds; an archive whose only entry cannot be read, with
  one error text when no passphrase is registered and another when one is; a file that
  libarchive does not open.
\<close>

definition plain_entry :: "string \<Rightarrow> entry" where
  "plain_entry p =
     \<lparr>pathname = Some p, entry_size = 0, skip_status = ARCHIVE_OK,
      write_header_status = ARCHIVE_OK, write_header_error = no_error, blocks = [],
      finish_status = ARCHIVE_OK, finish_error = no_error\<rparr>"

definition failing_entry :: "string \<Rightarrow> string \<Rightarrow> entry" where
  "failing_entry p msg =
     \<lparr>pathname = Some p, entry_size = 5, skip_status = ARCHIVE_OK,
      write_header_status = ARCHIVE_OK, write_header_error = no_error,
      blocks = [\<lparr>read_status = ARCHIVE_FAILED,
                 read_error = \<lparr>err_no = 84, err_string = Some msg\<rparr>,
                 block_data = [], block_offset = 0, write_status = ARCHIVE_OK\<rparr>],
      finish_status = ARCHIVE_OK, finish_error = no_error\<rparr>"

definition ok_header :: "entry \<Rightarrow> header_result" where
  "ok_header e = \<lparr>h_status = ARCHIVE_OK, h_error = no_error, h_entry = e\<rparr>"

definition ok_archive :: "entry list \<Rightarrow> archive_script" where
  "ok_archive es =
     \<lparr>open_status = ARCHIVE_OK, open_error = no_error, headers = map ok_header es\<rparr>"

definition ok_env :: "(string list \<Rightarrow> archive_script) \<Rightarrow> env" where
  "ok_env lib =
     \<lparr>fopen_ok = (\<lambda>_. True), alloc_ok = (\<lambda>_. True),
      mkdir_res = (\<lambda>_ _. (0, 0)), archive = (\<lambda>_. lib)\<rparr>"

definition locked_lib :: "string list \<Rightarrow> archive_script" where
  "locked_lib pass =
     ok_archive [failing_entry ''secret.txt''
                   (if pass = [] then ''password required'' else ''Incorrect password'')]"

definition garbage_lib :: "string list \<Rightarrow> archive_script" where
  "garbage_lib pass =
     \<lparr>open_status = ARCHIVE_FATAL,
      open_error = \<lparr>err_no = 84, err_string = Some ''Unrecognized archive format''\<rparr>,
      headers = []\<rparr>"

section \<open>Properties of the error table\<close>

lemmas rar_codes =
  RAR_SUCCESS_def RAR_FILE_NOT_FOUND_def RAR_OPEN_ERROR_def RAR_CREATE_ERROR_def
  RAR_MEMORY_ERROR_def RAR_BAD_ARCHIVE_def RAR_UNKNOWN_FORMAT_def RAR_BAD_PASSWORD_def
  RAR_BAD_DATA_def RAR_UNKNOWN_ERROR_def

lemma length_error_messages: "length error_messages = 10"
  by (simp add: error_messages_def)

lemma distinct_error_messages: "distinct error_messages"
  by (simp add: error_messages_def)

lemma defined_code_index:
  assumes "0 \<le> c" and "c \<le> RAR_UNKNOWN_ERROR"
  shows "nat c < length error_messages"
  using assms by (simp add: length_error_messages RAR_UNKNOWN_ERROR_def)

lemma message_in_table: "rar_get_error_message c \<in> set error_messages"
proof (cases "c < 0 \<or> c > RAR_UNKNOWN_ERROR")
  case True
  then have "rar_get_error_message c = error_messages ! 9"
    by (simp add: rar_get_error_message_def RAR_UNKNOWN_ERROR_def)
  then show ?thesis
    by (simp add: length_error_messages)
next
  case False
  then have "nat c < length error_messages"
    using defined_code_index by simp
  with False show ?thesis
    by (simp add: rar_get_error_message_def)
qed

lemma message_inj:
  assumes "0 \<le> c" "c \<le> RAR_UNKNOWN_ERROR" "0 \<le> d" "d \<le> RAR_UNKNOWN_ERROR"
    and eq: "rar_get_error_message c = rar_get_error_message d"
  shows "c = d"
proof -
  have ic: "nat c < length error_messages" and id: "nat d < length error_messages"
    using assms defined_code_index by simp_all
  from eq assms(1-4) have "error_messages ! nat c = error_messages ! nat d"
    by (simp add: rar_get_error_message_def)
  with ic id distinct_error_messages have "nat c = nat d"
    by (simp add: nth_eq_iff_index_eq)
  with assms(1,3) show ?thesis by simp
qed

section \<open>Reading the effects of a run\<close>

lemma listed_append: "listed (xs @ ys) = listed xs @ listed ys"
  by (simp add: listed_def List.map_filter_def)

lemma reported_append: "reported (xs @ ys) = reported xs @ reported ys"
  by (simp add: reported_def List.map_filter_def)

lemma written_append: "written (xs @ ys) = written xs @ written ys"
  by (simp add: written_def List.map_filter_def)

lemma listed_Nil: "listed [] = []"
  by (simp add: listed_def List.map_filter_def)

lemma written_Nil: "written [] = []"
  by (simp add: written_def List.map_filter_def)

lemma reported_Nil: "reported [] = []"
  by (simp add: reported_def List.map_filter_def)

lemma listed_Cons:
  "listed (ev # tr) = (case ev of ListCb p \<Rightarrow> p # listed tr | _ \<Rightarrow> listed tr)"
  by (simp add: listed_def List.map_filter_def split: event.split)

lemma written_Cons:
  "written (ev # tr) = (case ev of WriteHeader p \<Rightarrow> p # written tr | _ \<Rightarrow> written tr)"
  by (simp add: written_def List.map_filter_def split: event.split)

lemma reported_Cons:
  "reported (ev # tr) = (case ev of ErrorCb m \<Rightarrow> m # reported tr | _ \<Rightarrow> reported tr)"
  by (simp add: reported_def List.map_filter_def split: event.split)

lemma listed_map: "listed (map Mkdir ds) = []" "listed (map AddPassphrase ws) = []"
  by (simp_all add: listed_def List.map_filter_def)

lemma written_map: "written (map Mkdir ds) = []" "written (map AddPassphrase ws) = []"
  by (simp_all add: written_def List.map_filter_def)

lemma reported_map: "reported (map Mkdir ds) = []" "reported (map AddPassphrase ws) = []"
  by (simp_all add: reported_def List.map_filter_def)

lemmas proj_simps = listed_append reported_append written_append listed_Nil written_Nil
  reported_Nil listed_Cons written_Cons reported_Cons listed_map written_map reported_map

section \<open>The error mapping\<close>

text \<open>\<^verbatim>\<open>map_archive_error\<close> returns one of seven codes, never
  \<^verbatim>\<open>RAR_SUCCESS\<close> and never \<^verbatim>\<open>RAR_OPEN_ERROR\<close> or
  \<^verbatim>\<open>RAR_CREATE_ERROR\<close>.\<close>

lemma map_archive_error_code_cases:
  "map_archive_error_code a \<in> {RAR_FILE_NOT_FOUND, RAR_MEMORY_ERROR, RAR_BAD_PASSWORD,
     RAR_BAD_ARCHIVE, RAR_BAD_DATA, RAR_UNKNOWN_FORMAT, RAR_UNKNOWN_ERROR}"
  by (simp add: map_archive_error_code_def Let_def split: option.split)

lemma map_archive_error_code_nonzero: "map_archive_error_code a \<noteq> RAR_SUCCESS"
  using map_archive_error_code_cases [of a] by (auto simp: rar_codes)

lemma map_archive_error_fst: "fst (map_archive_error a cb tr) = map_archive_error_code a"
  by (simp add: map_archive_error_def)

lemma map_archive_error_snd: "snd (map_archive_error a cb tr) = tr @ error_events a cb"
  by (simp add: map_archive_error_def call_error_cb_def error_events_def split: option.split)

lemma map_archive_error_proj:
  "listed (snd (map_archive_error a cb tr)) = listed tr"
  "written (snd (map_archive_error a cb tr)) = written tr"
  by (simp_all add: map_archive_error_def call_error_cb_def proj_simps split: option.split)

lemma error_events_proj:
  "listed (error_events a cb) = []"
  "written (error_events a cb) = []"
  by (simp_all add: error_events_def proj_simps split: option.split)

section \<open>The helpers\<close>

lemma mkdir_prefixes_mem: "seen @ u \<in> set (mkdir_prefixes seen (u @ PATH_SEP # v))"
proof (induction u arbitrary: seen)
  case Nil
  then show ?case by simp
next
  case (Cons c u)
  have "(seen @ [c]) @ u \<in> set (mkdir_prefixes (seen @ [c]) (u @ PATH_SEP # v))"
    by (rule Cons.IH)
  then show ?case by auto
qed

lemma mkdir_calls_ancestor:
  assumes "a \<noteq> []"
  shows "a \<in> set (mkdir_calls (a @ PATH_SEP # b))"
proof -
  obtain x a' where a: "a = x # a'"
    using assms by (cases a) auto
  show ?thesis
  proof (cases "x = PATH_SEP")
    case True
    then show ?thesis
      using mkdir_prefixes_mem [of "[x]" a' b] by (simp add: mkdir_calls_def a)
  next
    case False
    then show ?thesis
      using mkdir_prefixes_mem [of "[]" a b] by (simp add: mkdir_calls_def a)
  qed
qed

lemma mkdir_calls_self: "path \<in> set (mkdir_calls path)"
  by (simp add: mkdir_calls_def Let_def)

lemma create_directory_recursive_snd:
  "snd (create_directory_recursive env path tr) =
     tr @ Alloc # (if alloc_ok env tr then map Mkdir (mkdir_calls path) else [])"
  by (simp add: create_directory_recursive_def sys_alloc_def Let_def case_prod_beta
      mkdir_calls_def)

lemma create_directory_recursive_fst:
  assumes "alloc_ok env tr"
  shows "(fst (create_directory_recursive env path tr) = 0) =
     (fst (mkdir_res env (tr @ Alloc # map Mkdir (butlast (mkdir_calls path))) path) = 0
      \<or> snd (mkdir_res env (tr @ Alloc # map Mkdir (butlast (mkdir_calls path))) path) = EEXIST)"
  using assms
  by (simp add: create_directory_recursive_def sys_alloc_def Let_def case_prod_beta
      mkdir_calls_def)

lemma create_directory_recursive_proj:
  "listed (snd (create_directory_recursive env d tr)) = listed tr"
  "written (snd (create_directory_recursive env d tr)) = written tr"
  "reported (snd (create_directory_recursive env d tr)) = reported tr"
  by (simp_all add: create_directory_recursive_def sys_alloc_def Let_def proj_simps
      split: prod.split)

lemma get_parent_directory_snd: "snd (get_parent_directory env p tr) = tr @ [Alloc]"
  by (simp add: get_parent_directory_def sys_alloc_def Let_def split: option.split)

lemma get_parent_directory_proj:
  "listed (snd (get_parent_directory env p tr)) = listed tr"
  "written (snd (get_parent_directory env p tr)) = written tr"
  "reported (snd (get_parent_directory env p tr)) = reported tr"
  by (simp_all add: get_parent_directory_def sys_alloc_def Let_def proj_simps
      split: prod.split option.split)

lemma copy_data_proj:
  "listed (snd (snd (copy_data bs a tr))) = listed tr"
  "written (snd (snd (copy_data bs a tr))) = written tr"
  "reported (snd (snd (copy_data bs a tr))) = reported tr"
  by (induction bs a tr rule: copy_data.induct; simp add: Let_def proj_simps)+

lemma copy_data_status: "fst (copy_data bs a tr) = fst (copy_data bs a' tr')"
  by (induction bs arbitrary: a tr a' tr') (simp_all add: Let_def)

lemma copy_data_extends: "prefix tr (snd (snd (copy_data bs a tr)))"
proof (induction bs arbitrary: a tr)
  case Nil
  then show ?case by simp
next
  case (Cons b bs)
  define tr1 where "tr1 = tr @ [WriteDataBlock (block_data b) (block_offset b)]"
  have "prefix tr tr1"
    by (simp add: tr1_def)
  moreover have "prefix tr1 (snd (snd (copy_data bs (read_error b) tr1)))"
    by (rule Cons.IH)
  ultimately have "prefix tr (snd (snd (copy_data bs (read_error b) tr1)))"
    by (rule prefix_order.trans)
  then show ?case
    by (simp add: Let_def tr1_def)
qed

section \<open>The extraction loop\<close>

lemma extract_entry_unfold:
  assumes alloc: "alloc_ok env tr" and p: "pathname e = Some p"
  shows "extract_entry env dest cb e aerr tr =
    (let tr4 = tr_header env dest p tr; c = copied e aerr tr4 in
     if write_header_status e \<noteq> ARCHIVE_OK then
       (Break (write_header_status e) (map_archive_error_code (write_header_error e)) aerr,
        snd (map_archive_error (write_header_error e) cb tr4))
     else if fst c \<noteq> ARCHIVE_OK then
       (Break (fst c) (map_archive_error_code (fst (snd c))) (fst (snd c)),
        snd (map_archive_error (fst (snd c)) cb (snd (snd c))))
     else if finish_status e \<noteq> ARCHIVE_OK then
       (Break (finish_status e) (map_archive_error_code (finish_error e)) (fst (snd c)),
        snd (map_archive_error (finish_error e) cb (snd (snd c) @ [FinishEntry])))
     else (Continue, snd (snd c) @ [FinishEntry]))"
  using alloc p
  by (simp add: extract_entry_def sys_alloc_def Let_def case_prod_beta map_archive_error_def
      tr_header_def copied_def)

lemma tr_header_proj:
  "written (tr_header env dest p tr) = written tr @ [dest @ [PATH_SEP] @ p]"
  "listed (tr_header env dest p tr) = listed tr"
  "reported (tr_header env dest p tr) = reported tr"
  by (simp_all add: tr_header_def Let_def proj_simps get_parent_directory_proj
      create_directory_recursive_proj split: option.split)

lemma tr_header_extends: "prefix tr (tr_header env dest p tr)"
  by (simp add: tr_header_def Let_def get_parent_directory_snd create_directory_recursive_snd
      split: option.split)

lemma copied_proj:
  "written (snd (snd (copied e a tr))) = written tr"
  "listed (snd (snd (copied e a tr))) = listed tr"
  "reported (snd (snd (copied e a tr))) = reported tr"
  by (simp_all add: copied_def copy_data_proj)

lemma copied_status:
  "fst (copied e a tr) = (if entry_size e > 0 then fst (copy_data (blocks e) no_error []) else ARCHIVE_OK)"
  using copy_data_status [of "blocks e" a tr no_error "[]"] by (simp add: copied_def)

lemma copied_extends: "prefix tr (snd (snd (copied e a tr)))"
  by (simp add: copied_def copy_data_extends)

lemma extract_entry_written:
  assumes alloc: "\<forall>t. alloc_ok env t" and p: "pathname e = Some p"
  shows "written (snd (extract_entry env dest cb e aerr tr)) = written tr @ [dest @ [PATH_SEP] @ p]"
    and "listed (snd (extract_entry env dest cb e aerr tr)) = listed tr"
  by (simp_all add: extract_entry_unfold [OF alloc [rule_format] p] Let_def map_archive_error_proj
      proj_simps tr_header_proj copied_proj)

lemma extract_entry_ok:
  assumes alloc: "\<forall>t. alloc_ok env t" and ok: "entry_writes_ok e"
  shows "fst (extract_entry env dest cb e aerr tr) = Continue"
    and "reported (snd (extract_entry env dest cb e aerr tr)) = reported tr"
proof -
  obtain p where p: "pathname e = Some p"
    using ok by (auto simp: entry_writes_ok_def)
  have c: "fst (copied e aerr (tr_header env dest p tr)) = ARCHIVE_OK"
    using ok by (simp add: copied_status entry_writes_ok_def)
  show "fst (extract_entry env dest cb e aerr tr) = Continue"
    using ok c by (simp add: extract_entry_unfold [OF alloc [rule_format] p] Let_def entry_writes_ok_def)
  show "reported (snd (extract_entry env dest cb e aerr tr)) = reported tr"
    using ok c
    by (simp add: extract_entry_unfold [OF alloc [rule_format] p] Let_def entry_writes_ok_def proj_simps
        tr_header_proj copied_proj)
qed

lemma extract_entry_fails:
  assumes alloc: "\<forall>t. alloc_ok env t" and p: "pathname e = Some p"
    and bad: "\<not> entry_writes_ok e"
  shows "\<exists>r c a. fst (extract_entry env dest cb e aerr tr) = Break r c a \<and> c \<noteq> RAR_SUCCESS"
proof -
  from bad p have "write_header_status e \<noteq> ARCHIVE_OK
      \<or> fst (copied e aerr (tr_header env dest p tr)) \<noteq> ARCHIVE_OK
      \<or> finish_status e \<noteq> ARCHIVE_OK"
    by (auto simp: entry_writes_ok_def copied_status split: if_splits)
  then show ?thesis
    by (auto simp: extract_entry_unfold [OF alloc [rule_format] p] Let_def map_archive_error_code_nonzero)
qed

lemma extract_entry_extends: "prefix tr (snd (extract_entry env dest cb e aerr tr))"
proof (cases "pathname e")
  case None
  then show ?thesis by (simp add: extract_entry_def)
next
  case (Some p)
  show ?thesis
  proof (cases "alloc_ok env tr")
    case False
    then show ?thesis
      by (simp add: extract_entry_def Some sys_alloc_def call_error_cb_def)
  next
    case True
    define tr4 where "tr4 = tr_header env dest p tr"
    define c where "c = copied e aerr tr4"
    have p4: "prefix tr tr4"
      by (simp add: tr4_def tr_header_extends)
    have "prefix tr4 (snd (snd c))"
      by (simp add: c_def copied_extends)
    with p4 have p5: "prefix tr (snd (snd c))"
      by (rule prefix_order.trans)
    have "snd (extract_entry env dest cb e aerr tr) =
      (if write_header_status e \<noteq> ARCHIVE_OK
       then tr4 @ error_events (write_header_error e) cb
       else if fst c \<noteq> ARCHIVE_OK then snd (snd c) @ error_events (fst (snd c)) cb
       else if finish_status e \<noteq> ARCHIVE_OK
       then (snd (snd c) @ [FinishEntry]) @ error_events (finish_error e) cb
       else snd (snd c) @ [FinishEntry])"
      unfolding tr4_def c_def
      by (simp add: extract_entry_unfold [OF True Some] Let_def map_archive_error_snd)
    then show ?thesis
      using p4 p5 by simp
  qed
qed

lemma extract_loop_all_ok:
  assumes alloc: "\<forall>t. alloc_ok env t" and ok: "entries_ok hs"
  shows "fst (extract_loop env dest cb hs tr) = Exited ARCHIVE_EOF RAR_SUCCESS no_error
       \<and> written (snd (extract_loop env dest cb hs tr)) = written tr @ map (out_path dest) hs
       \<and> listed (snd (extract_loop env dest cb hs tr)) = listed tr
       \<and> reported (snd (extract_loop env dest cb hs tr)) = reported tr"
  using ok
proof (induction hs arbitrary: tr)
  case Nil
  then show ?case by simp
next
  case (Cons h hs)
  from Cons.prems have h: "h_status h = ARCHIVE_OK" "entry_writes_ok (h_entry h)"
    and rest: "entries_ok hs"
    by (simp_all add: entries_ok_def)
  obtain p where p: "pathname (h_entry h) = Some p"
    using h(2) by (auto simp: entry_writes_ok_def)
  obtain tr' where e: "extract_entry env dest cb (h_entry h) (h_error h) tr = (Continue, tr')"
    using extract_entry_ok(1) [OF alloc h(2), of dest cb "h_error h" tr]
    by (cases "extract_entry env dest cb (h_entry h) (h_error h) tr") simp
  have w: "written tr' = written tr @ [out_path dest h]" and l: "listed tr' = listed tr"
    using extract_entry_written [OF alloc p, of dest cb "h_error h" tr] e
    by (simp_all add: out_path_def p)
  have r: "reported tr' = reported tr"
    using extract_entry_ok(2) [OF alloc h(2), of dest cb "h_error h" tr] e by simp
  have step: "extract_loop env dest cb (h # hs) tr = extract_loop env dest cb hs tr'"
    using h(1) e by simp
  show ?case
    unfolding step using Cons.IH [OF rest, of tr'] w l r by simp
qed

lemma extract_loop_append:
  assumes alloc: "\<forall>t. alloc_ok env t" and ok: "entries_ok pre"
  shows "extract_loop env dest cb (pre @ rest) tr =
         extract_loop env dest cb rest (snd (extract_loop env dest cb pre tr))"
  using ok
proof (induction pre arbitrary: tr)
  case Nil
  then show ?case by simp
next
  case (Cons h hs)
  from Cons.prems have h: "h_status h = ARCHIVE_OK" "entry_writes_ok (h_entry h)"
    and rest: "entries_ok hs"
    by (simp_all add: entries_ok_def)
  obtain tr' where e: "extract_entry env dest cb (h_entry h) (h_error h) tr = (Continue, tr')"
    using extract_entry_ok(1) [OF alloc h(2), of dest cb "h_error h" tr]
    by (cases "extract_entry env dest cb (h_entry h) (h_error h) tr") simp
  show ?case
    using h(1) e Cons.IH [OF rest, of tr'] by simp
qed

lemma extract_loop_fails:
  assumes alloc: "\<forall>t. alloc_ok env t" and st: "h_status h = ARCHIVE_OK"
    and p: "pathname (h_entry h) = Some p" and bad: "\<not> entry_writes_ok (h_entry h)"
  shows "extract_loop env dest cb (h # post) tr = extract_loop env dest cb [h] tr"
    and "\<exists>r c a. fst (extract_loop env dest cb (h # post) tr) = Exited r c a \<and> c \<noteq> RAR_SUCCESS"
    and "written (snd (extract_loop env dest cb (h # post) tr)) = written tr @ [out_path dest h]"
proof -
  obtain r c a where b: "fst (extract_entry env dest cb (h_entry h) (h_error h) tr) = Break r c a"
    and c: "c \<noteq> RAR_SUCCESS"
    using extract_entry_fails [OF alloc p bad] by blast
  then obtain tr' where e: "extract_entry env dest cb (h_entry h) (h_error h) tr = (Break r c a, tr')"
    by (cases "extract_entry env dest cb (h_entry h) (h_error h) tr") simp
  have l: "extract_loop env dest cb (h # post) tr = (Exited r c a, tr')"
    using st e by simp
  show "extract_loop env dest cb (h # post) tr = extract_loop env dest cb [h] tr"
    using st e by simp
  show "\<exists>r c a. fst (extract_loop env dest cb (h # post) tr) = Exited r c a \<and> c \<noteq> RAR_SUCCESS"
    using l c by simp
  show "written (snd (extract_loop env dest cb (h # post) tr)) = written tr @ [out_path dest h]"
    using extract_entry_written(1) [OF alloc p, of dest cb "h_error h" tr] e l
    by (simp add: out_path_def p)
qed

lemma extract_loop_extends: "prefix tr (snd (extract_loop env dest cb hs tr))"
proof (induction hs arbitrary: tr)
  case Nil
  then show ?case by simp
next
  case (Cons h hs)
  obtain st tr' where e: "extract_entry env dest cb (h_entry h) (h_error h) tr = (st, tr')"
    by (cases "extract_entry env dest cb (h_entry h) (h_error h) tr")
  have p: "prefix tr tr'"
    using extract_entry_extends [of tr env dest cb "h_entry h" "h_error h"] e by simp
  have "prefix tr (snd (extract_loop env dest cb hs tr'))"
    using p Cons.IH [of tr'] by (rule prefix_order.trans)
  then show ?case
    using p e by (cases st) simp_all
qed

lemma extract_loop_no_entries:
  assumes "no_entries hs"
  shows "\<exists>a. extract_loop env dest cb hs tr = (Exited ARCHIVE_EOF RAR_SUCCESS a, tr)"
  using assms by (cases hs) (simp_all add: no_entries_def)

lemma rar_extract_unfold:
  assumes "fopen_ok env rar_path" and "\<forall>t. alloc_ok env t"
    and "fst (create_directory_recursive env dest []) = 0"
    and "archive env rar_path (passphrases pw) = ar"
  shows "rar_extract env rar_path dest pw cb =
     (if open_status ar \<noteq> ARCHIVE_OK then
        (Some (map_archive_error_code (open_error ar)),
         snd (map_archive_error (open_error ar) cb (tr_open env rar_path dest pw)))
      else
        (case extract_loop env dest cb (headers ar) (tr_open env rar_path dest pw) of
           (Crashed, tr7) \<Rightarrow> (None, tr7)
         | (Exited r result aerr, tr7) \<Rightarrow>
             if r \<noteq> ARCHIVE_EOF \<and> result = RAR_SUCCESS then
               (Some (map_archive_error_code aerr), snd (map_archive_error aerr cb tr7))
             else (Some result, tr7)))"
  using assms
  by (simp add: rar_extract_def sys_alloc_def Let_def case_prod_beta map_archive_error_def
      tr_open_def split: loop_exit.split)

lemma tr_open_proj:
  "written (tr_open env rar_path dest pw) = []"
  "listed (tr_open env rar_path dest pw) = []"
  "reported (tr_open env rar_path dest pw) = []"
  by (simp_all add: tr_open_def proj_simps create_directory_recursive_proj)

lemma rar_extract_starts_with_mkdir:
  assumes "fopen_ok env rar_path"
  shows "prefix (snd (create_directory_recursive env dest []))
                (snd (rar_extract env rar_path dest pw ecb))"
proof -
  define tr1 where "tr1 = snd (create_directory_recursive env dest [])"
  define tr3 where "tr3 = (tr1 @ [Alloc]) @ map AddPassphrase (passphrases pw)"
  define tr6 where "tr6 = ((tr3 @ [Alloc]) @
     [SetOptions [ARCHIVE_EXTRACT_TIME, ARCHIVE_EXTRACT_PERM,
                  ARCHIVE_EXTRACT_ACL, ARCHIVE_EXTRACT_FFLAGS]]) @ [OpenFilename rar_path]"
  define ar where "ar = archive env rar_path (passphrases pw)"
  define l where "l = extract_loop env dest ecb (headers ar) tr6"
  have p3: "prefix tr1 tr3"
    by (simp add: tr3_def)
  have "prefix tr3 tr6"
    by (simp add: tr6_def)
  with p3 have p6: "prefix tr1 tr6"
    by (rule prefix_order.trans)
  have "prefix tr6 (snd l)"
    by (simp add: l_def extract_loop_extends)
  with p6 have pl: "prefix tr1 (snd l)"
    by (rule prefix_order.trans)
  have "snd (rar_extract env rar_path dest pw ecb) =
     (if fst (create_directory_recursive env dest []) \<noteq> 0
      then call_error_cb ecb ''Failed to create destination directory'' tr1
      else if \<not> alloc_ok env tr1
      then call_error_cb ecb ''Failed to create archive reader'' (tr1 @ [Alloc])
      else if \<not> alloc_ok env tr3
      then call_error_cb ecb ''Failed to create disk writer'' (tr3 @ [Alloc])
      else if open_status ar \<noteq> ARCHIVE_OK then tr6 @ error_events (open_error ar) ecb
      else (case fst l of
              Crashed \<Rightarrow> snd l
            | Exited r result aerr \<Rightarrow>
                if r \<noteq> ARCHIVE_EOF \<and> result = RAR_SUCCESS
                then snd l @ error_events aerr ecb else snd l))"
    using assms unfolding tr1_def tr3_def tr6_def ar_def l_def
    by (simp add: rar_extract_def sys_alloc_def Let_def case_prod_beta map_archive_error_snd
        split: loop_exit.split)
  then show ?thesis
    unfolding tr1_def [symmetric] using p3 p6 pl
    by (simp add: call_error_cb_def split: loop_exit.split)
qed

section \<open>The listing loop\<close>

lemma names_Cons:
  "names (h # hs) = (case pathname (h_entry h) of None \<Rightarrow> names hs | Some p \<Rightarrow> p # names hs)"
  by (simp add: names_def List.map_filter_def split: option.split)

lemma names_named: "named hs \<Longrightarrow> names hs = map (\<lambda>h. the (pathname (h_entry h))) hs"
  by (induction hs) (auto simp: names_Cons named_def names_def List.map_filter_def)

lemma list_loop_all_ok:
  assumes "headers_ok hs"
  shows "fst (list_loop hs cb tr) = ARCHIVE_EOF
       \<and> listed (snd (snd (list_loop hs cb tr))) = listed tr @ (if cb then names hs else [])
       \<and> reported (snd (snd (list_loop hs cb tr))) = reported tr
       \<and> written (snd (snd (list_loop hs cb tr))) = written tr"
  using assms
proof (induction hs arbitrary: tr)
  case Nil
  then show ?case by (simp add: names_def List.map_filter_def)
next
  case (Cons h hs)
  then have h: "h_status h = ARCHIVE_OK" and rest: "headers_ok hs"
    by (simp_all add: headers_ok_def)
  show ?case
    using h Cons.IH [OF rest]
    by (simp add: Let_def names_Cons proj_simps split: option.split)
qed

lemma list_loop_append:
  assumes "headers_ok pre"
  shows "list_loop (pre @ rest) cb tr = list_loop rest cb (snd (snd (list_loop pre cb tr)))"
  using assms
proof (induction pre arbitrary: tr)
  case Nil
  then show ?case by simp
next
  case (Cons h hs)
  then have h: "h_status h = ARCHIVE_OK" and rest: "headers_ok hs"
    by (simp_all add: headers_ok_def)
  show ?case
    using h Cons.IH [OF rest] by (simp add: Let_def)
qed

lemma list_loop_no_entries:
  assumes "no_entries hs"
  shows "fst (list_loop hs cb tr) = ARCHIVE_EOF" and "snd (snd (list_loop hs cb tr)) = tr"
  using assms by (cases hs; simp add: no_entries_def)+

lemma rar_list_unfold:
  assumes "fopen_ok env rar_path" and "alloc_ok env []"
    and "archive env rar_path (passphrases pw) = ar"
  shows "rar_list env rar_path pw lcb ecb =
     (if open_status ar \<noteq> ARCHIVE_OK then
        (map_archive_error_code (open_error ar),
         tr_list_open rar_path pw @ error_events (open_error ar) ecb)
      else
        let l = list_loop (headers ar) lcb (tr_list_open rar_path pw) in
        if fst l \<noteq> ARCHIVE_EOF then
          (map_archive_error_code (fst (snd l)), snd (snd l) @ error_events (fst (snd l)) ecb)
        else (RAR_SUCCESS, snd (snd l)))"
proof -
  have m: "\<And>a tr. map_archive_error a ecb tr = (map_archive_error_code a, tr @ error_events a ecb)"
    using map_archive_error_snd map_archive_error_fst by (simp add: prod_eq_iff)
  show ?thesis
    using assms
    by (simp add: rar_list_def sys_alloc_def Let_def case_prod_beta m tr_list_open_def)
qed

lemma tr_list_open_proj:
  "listed (tr_list_open rar_path pw) = []"
  "reported (tr_list_open rar_path pw) = []"
  "written (tr_list_open rar_path pw) = []"
  by (simp_all add: tr_list_open_def proj_simps)

text \<open>
  An error of \<^verbatim>\<open>archive_read_next_header\<close> ends the listing: the code mapped from
  the reader's error state is returned, and the names listed are those of the entries
  before the failing header.
\<close>

lemma rar_list_header_error:
  assumes "fopen_ok env rar_path" and "alloc_ok env []"
    and "archive env rar_path (passphrases pw) = ar" and "open_status ar = ARCHIVE_OK"
    and hs: "headers ar = pre @ h # post" and pre: "headers_ok pre"
    and h: "h_status h \<noteq> ARCHIVE_OK" "h_status h \<noteq> ARCHIVE_EOF"
  shows "fst (rar_list env rar_path pw True ecb) = map_archive_error_code (h_error h)
       \<and> fst (rar_list env rar_path pw True ecb) \<noteq> RAR_SUCCESS
       \<and> listed (snd (rar_list env rar_path pw True ecb)) = names pre"
proof -
  define tr where "tr = snd (snd (list_loop pre True (tr_list_open rar_path pw)))"
  have l: "list_loop (headers ar) True (tr_list_open rar_path pw) = (h_status h, h_error h, tr)"
    using h by (simp add: hs list_loop_append [OF pre] tr_def)
  have "listed tr = names pre"
    using list_loop_all_ok [OF pre, of True "tr_list_open rar_path pw"]
    by (simp add: tr_def tr_list_open_proj)
  then show ?thesis
    using h assms(4) l
    by (simp add: rar_list_unfold [OF assms(1-3)] Let_def map_archive_error_code_nonzero
        proj_simps error_events_proj)
qed

section \<open>Running the code on the examples\<close>

lemmas example_defs = plain_entry_def failing_entry_def ok_header_def ok_archive_def ok_env_def
  locked_lib_def garbage_lib_def no_error_def

lemmas run_defs = rar_extract_def rar_list_def create_directory_recursive_def sys_alloc_def
  PATH_SEP_def passphrases_def extract_entry_def get_parent_directory_def
  map_archive_error_def map_archive_error_code_def call_error_cb_def Let_def
  ENOENT_def ENOMEM_def EEXIST_def

section \<open>Entry paths and the destination directory\<close>

text \<open>
  Claim C1 as stated does not hold. The archive has one entry, \<open>../../etc/passwd\<close>, and
  is extracted to \<open>/tmp/out\<close>. No error is returned: the result is
  \<^verbatim>\<open>RAR_SUCCESS\<close>, and the disk writer is handed the path
  \<open>/tmp/out/../../etc/passwd\<close>, which lies outside \<open>/tmp/out\<close>.
\<close>

theorem path_escape_counterexample:
  "fst (rar_extract (ok_env (\<lambda>_. ok_archive [plain_entry ''../../etc/passwd'']))
          ''a.rar'' ''/tmp/out'' None True) = Some RAR_SUCCESS
   \<and> written (snd (rar_extract (ok_env (\<lambda>_. ok_archive [plain_entry ''../../etc/passwd'']))
          ''a.rar'' ''/tmp/out'' None True)) = [''/tmp/out/../../etc/passwd'']
   \<and> spec_escapes_destination ''/tmp/out'' ''/tmp/out/../../etc/passwd''"
  by (simp add: example_defs run_defs proj_simps spec_escapes_destination_def RAR_SUCCESS_def)

text \<open>
  Claim C1, amended. \<^verbatim>\<open>rar_extract\<close> resolves no entry path and rejects none:
  the path handed to the disk writer is the destination path, the separator and the entry
  path, joined as they are. When the archive opens and libarchive accepts every call, the
  result is \<^verbatim>\<open>RAR_SUCCESS\<close>, every entry has been handed to the disk writer under
  that joined path, in table order, and no error has been reported, whatever components
  the entry paths contain.
\<close>

theorem rar_extract_joins_paths:
  assumes "fopen_ok env rar_path" and "\<forall>t. alloc_ok env t"
    and "fst (create_directory_recursive env dest []) = 0"
    and "archive env rar_path (passphrases pw) = ar" and "open_status ar = ARCHIVE_OK"
    and "entries_ok (headers ar)"
  shows "fst (rar_extract env rar_path dest pw cb) = Some RAR_SUCCESS
       \<and> written (snd (rar_extract env rar_path dest pw cb)) = map (out_path dest) (headers ar)
       \<and> reported (snd (rar_extract env rar_path dest pw cb)) = []"
proof -
  define l where "l = extract_loop env dest cb (headers ar) (tr_open env rar_path dest pw)"
  have l: "fst l = Exited ARCHIVE_EOF RAR_SUCCESS no_error"
    "written (snd l) = map (out_path dest) (headers ar)" "reported (snd l) = []"
    using extract_loop_all_ok [OF assms(2,6), of dest cb "tr_open env rar_path dest pw"]
    by (simp_all add: l_def tr_open_proj)
  have "rar_extract env rar_path dest pw cb = (Some RAR_SUCCESS, snd l)"
    using assms(5) l(1)
    by (simp add: rar_extract_unfold [OF assms(1-4)] l_def [symmetric] case_prod_beta)
  then show ?thesis
    using l by simp
qed

text \<open>The amended claim C1 on an archive of two entries, one with a parent-directory
  component.\<close>

theorem rar_extract_joins_paths_witness:
  "fopen_ok (ok_env (\<lambda>_. ok_archive [plain_entry ''docs/a.txt'', plain_entry ''../b.txt''])) ''a.rar''
   \<and> entries_ok (headers (ok_archive [plain_entry ''docs/a.txt'', plain_entry ''../b.txt'']))
   \<and> fst (rar_extract (ok_env (\<lambda>_. ok_archive [plain_entry ''docs/a.txt'', plain_entry ''../b.txt'']))
          ''a.rar'' ''out'' None True) = Some RAR_SUCCESS
   \<and> written (snd (rar_extract (ok_env (\<lambda>_. ok_archive [plain_entry ''docs/a.txt'', plain_entry ''../b.txt'']))
          ''a.rar'' ''out'' None True)) = [''out/docs/a.txt'', ''out/../b.txt'']"
proof -
  let ?ar = "ok_archive [plain_entry ''docs/a.txt'', plain_entry ''../b.txt'']"
  let ?env = "ok_env (\<lambda>_. ?ar)"
  have 1: "fopen_ok ?env ''a.rar''" and 2: "\<forall>t. alloc_ok ?env t"
    and 4: "archive ?env ''a.rar'' (passphrases None) = ?ar"
    by (simp_all add: ok_env_def)
  have 3: "fst (create_directory_recursive ?env ''out'' []) = 0"
    by (simp add: ok_env_def create_directory_recursive_def sys_alloc_def Let_def)
  have 5: "open_status ?ar = ARCHIVE_OK"
    by (simp add: ok_archive_def)
  have 6: "entries_ok (headers ?ar)"
    by (simp add: entries_ok_def entry_writes_ok_def example_defs)
  show ?thesis
    using 1 6 rar_extract_joins_paths [OF 1 2 3 4 5 6, of True]
    by (simp add: out_path_def example_defs PATH_SEP_def)
qed

section \<open>A failing entry\<close>

text \<open>
  Claim C2 as stated does not hold. The archive has two entries; the data of the first
  fails its check (\<open>File CRC error\<close>). The result is the single code
  \<^verbatim>\<open>RAR_BAD_DATA\<close>, and the second entry is never handed to the disk writer.
\<close>

theorem partial_failure_counterexample:
  "fst (rar_extract (ok_env (\<lambda>_. ok_archive [failing_entry ''a.txt'' ''File CRC error'',
                                               plain_entry ''b.txt'']))
          ''a.rar'' ''out'' None True) = Some RAR_BAD_DATA
   \<and> written (snd (rar_extract (ok_env (\<lambda>_. ok_archive [failing_entry ''a.txt'' ''File CRC error'',
                                                          plain_entry ''b.txt'']))
          ''a.rar'' ''out'' None True)) = [''out/a.txt'']"
  by (simp add: example_defs run_defs proj_simps rar_codes)

text \<open>
  Claim C2, amended. When an entry fails during extraction (its header cannot be
  written, its data cannot be copied or it cannot be finished), \<^verbatim>\<open>rar_extract\<close>
  stops at that entry: it returns one error code, which is not
  \<^verbatim>\<open>RAR_SUCCESS\<close>; the entries handed to the disk writer are those before the
  failing entry and the failing entry itself; and the loop does what it does on the
  table cut after the failing entry, so no later entry is read, written or reported.
\<close>

theorem rar_extract_stops_at_first_failure:
  assumes "fopen_ok env rar_path" and "\<forall>t. alloc_ok env t"
    and "fst (create_directory_recursive env dest []) = 0"
    and "archive env rar_path (passphrases pw) = ar" and "open_status ar = ARCHIVE_OK"
    and hs: "headers ar = pre @ h # post" and pre: "entries_ok pre"
    and h: "h_status h = ARCHIVE_OK" "pathname (h_entry h) = Some p"
      "\<not> entry_writes_ok (h_entry h)"
  shows "(\<exists>c. fst (rar_extract env rar_path dest pw cb) = Some c \<and> c \<noteq> RAR_SUCCESS)
       \<and> written (snd (rar_extract env rar_path dest pw cb)) = map (out_path dest) (pre @ [h])
       \<and> (\<forall>tr. extract_loop env dest cb (pre @ h # post) tr =
                extract_loop env dest cb (pre @ [h]) tr)"
proof -
  note alloc = assms(2)
  have cut: "extract_loop env dest cb (pre @ h # post) tr =
             extract_loop env dest cb (pre @ [h]) tr" for tr
  proof -
    have "extract_loop env dest cb (pre @ h # post) tr =
          extract_loop env dest cb (h # post) (snd (extract_loop env dest cb pre tr))"
      by (rule extract_loop_append [OF alloc pre])
    also have "\<dots> = extract_loop env dest cb [h] (snd (extract_loop env dest cb pre tr))"
      by (rule extract_loop_fails(1) [OF alloc h])
    also have "\<dots> = extract_loop env dest cb (pre @ [h]) tr"
      by (rule extract_loop_append [OF alloc pre, symmetric])
    finally show ?thesis .
  qed
  define tr0 where "tr0 = tr_open env rar_path dest pw"
  define tr1 where "tr1 = snd (extract_loop env dest cb pre tr0)"
  have w1: "written tr1 = map (out_path dest) pre"
    using extract_loop_all_ok [OF alloc pre, of dest cb tr0]
    by (simp add: tr1_def tr0_def tr_open_proj)
  have step: "extract_loop env dest cb (headers ar) tr0 = extract_loop env dest cb (h # post) tr1"
    by (simp add: hs extract_loop_append [OF alloc pre] tr1_def)
  obtain r c a where ex: "fst (extract_loop env dest cb (h # post) tr1) = Exited r c a"
    and c: "c \<noteq> RAR_SUCCESS"
    using extract_loop_fails(2) [OF alloc h, of dest cb post tr1] by blast
  have w: "written (snd (extract_loop env dest cb (h # post) tr1)) =
           map (out_path dest) (pre @ [h])"
    using extract_loop_fails(3) [OF alloc h, of dest cb post tr1] w1 by simp
  have "rar_extract env rar_path dest pw cb =
        (Some c, snd (extract_loop env dest cb (h # post) tr1))"
    using assms(5) ex c
    by (simp add: rar_extract_unfold [OF assms(1-4)] tr0_def [symmetric] step case_prod_beta)
  then show ?thesis
    using c w cut by simp
qed

text \<open>The amended claim C2 on an archive of three entries the second of which fails.\<close>

theorem rar_extract_stops_at_first_failure_witness:
  "entries_ok [ok_header (plain_entry ''a.txt'')]
   \<and> \<not> entry_writes_ok (failing_entry ''b.txt'' ''File CRC error'')
   \<and> fst (rar_extract (ok_env (\<lambda>_. ok_archive [plain_entry ''a.txt'',
             failing_entry ''b.txt'' ''File CRC error'', plain_entry ''c.txt'']))
          ''a.rar'' ''out'' None True) = Some RAR_BAD_DATA
   \<and> written (snd (rar_extract (ok_env (\<lambda>_. ok_archive [plain_entry ''a.txt'',
             failing_entry ''b.txt'' ''File CRC error'', plain_entry ''c.txt'']))
          ''a.rar'' ''out'' None True)) = [''out/a.txt'', ''out/b.txt'']"
proof -
  let ?ar = "ok_archive [plain_entry ''a.txt'', failing_entry ''b.txt'' ''File CRC error'',
                         plain_entry ''c.txt'']"
  let ?env = "ok_env (\<lambda>_. ?ar)"
  have 1: "fopen_ok ?env ''a.rar''" and 2: "\<forall>t. alloc_ok ?env t"
    and 4: "archive ?env ''a.rar'' (passphrases None) = ?ar"
    by (simp_all add: ok_env_def)
  have 3: "fst (create_directory_recursive ?env ''out'' []) = 0"
    by (simp add: ok_env_def create_directory_recursive_def sys_alloc_def Let_def)
  have 5: "open_status ?ar = ARCHIVE_OK"
    by (simp add: ok_archive_def)
  have 6: "headers ?ar = [ok_header (plain_entry ''a.txt'')]
             @ ok_header (failing_entry ''b.txt'' ''File CRC error'')
             # [ok_header (plain_entry ''c.txt'')]"
    by (simp add: ok_archive_def)
  have 7: "entries_ok [ok_header (plain_entry ''a.txt'')]"
    by (simp add: entries_ok_def entry_writes_ok_def example_defs)
  have 8: "h_status (ok_header (failing_entry ''b.txt'' ''File CRC error'')) = ARCHIVE_OK"
    and 9: "pathname (h_entry (ok_header (failing_entry ''b.txt'' ''File CRC error''))) = Some ''b.txt''"
    and 10: "\<not> entry_writes_ok (h_entry (ok_header (failing_entry ''b.txt'' ''File CRC error'')))"
    by (simp_all add: entry_writes_ok_def example_defs)
  have code: "fst (rar_extract ?env ''a.rar'' ''out'' None True) = Some RAR_BAD_DATA"
    by (simp add: example_defs run_defs rar_codes)
  show ?thesis
    using 7 10 code rar_extract_stops_at_first_failure [OF 1 2 3 4 5 6 7 8 9 10, of True]
    by (simp add: out_path_def example_defs PATH_SEP_def)
qed

section \<open>Password failures\<close>

text \<open>
  Claim C3 as stated does not hold. For an entry that libarchive cannot read without
  the right passphrase, extraction with no password and extraction with a wrong
  password return the same code, \<^verbatim>\<open>RAR_BAD_PASSWORD\<close>; and the code is chosen by
  the text of the error: a failure to create a file whose name contains \<open>password\<close>
  gets it too.
\<close>

theorem password_kinds_counterexample:
  "fst (rar_extract (ok_env locked_lib) ''a.rar'' ''out'' None True) = Some RAR_BAD_PASSWORD
   \<and> fst (rar_extract (ok_env locked_lib) ''a.rar'' ''out'' (Some ''guess'') True)
       = Some RAR_BAD_PASSWORD
   \<and> map_archive_error_code \<lparr>err_no = 13, err_string = Some ''Cannot create out/passwords.txt''\<rparr>
       = RAR_BAD_PASSWORD"
  by (simp add: example_defs run_defs rar_codes)

text \<open>
  Claim C3, amended. There is one error kind for password failures,
  \<^verbatim>\<open>RAR_BAD_PASSWORD\<close>, described as \<open>Incorrect password or password required\<close>;
  a missing and a wrong password are not told apart. \<^verbatim>\<open>map_archive_error\<close>
  returns it exactly when \<^verbatim>\<open>errno\<close> is neither \<^verbatim>\<open>ENOENT\<close> nor
  \<^verbatim>\<open>ENOMEM\<close> and the error text of libarchive contains one of \<open>password\<close>,
  \<open>Password\<close>, \<open>encrypted\<close>, \<open>Encrypted\<close>.
\<close>

theorem password_failures_share_one_code:
  "(map_archive_error_code a = RAR_BAD_PASSWORD) =
     (err_no a \<noteq> ENOENT \<and> err_no a \<noteq> ENOMEM \<and>
      (\<exists>s. err_string a = Some s \<and>
           (strstr s ''password'' \<or> strstr s ''Password'' \<or>
            strstr s ''encrypted'' \<or> strstr s ''Encrypted'')))
   \<and> rar_get_error_message RAR_BAD_PASSWORD = ''Incorrect password or password required''"
proof -
  have "rar_get_error_message RAR_BAD_PASSWORD = ''Incorrect password or password required''"
    by (simp add: rar_get_error_message_def rar_codes error_messages_def)
  moreover have "(map_archive_error_code a = RAR_BAD_PASSWORD) =
     (err_no a \<noteq> ENOENT \<and> err_no a \<noteq> ENOMEM \<and>
      (\<exists>s. err_string a = Some s \<and>
           (strstr s ''password'' \<or> strstr s ''Password'' \<or>
            strstr s ''encrypted'' \<or> strstr s ''Encrypted'')))"
    by (cases "err_string a") (auto simp: map_archive_error_code_def Let_def rar_codes)
  ultimately show ?thesis by simp
qed

text \<open>The amended claim C3 on three error states.\<close>

theorem password_failures_share_one_code_witness:
  "map_archive_error_code \<lparr>err_no = 84, err_string = Some ''password required''\<rparr> = RAR_BAD_PASSWORD
   \<and> map_archive_error_code \<lparr>err_no = 84, err_string = Some ''Incorrect password''\<rparr> = RAR_BAD_PASSWORD
   \<and> map_archive_error_code \<lparr>err_no = 84, err_string = Some ''Truncated input''\<rparr> \<noteq> RAR_BAD_PASSWORD"
proof -
  have a: "map_archive_error_code \<lparr>err_no = 84, err_string = Some ''password required''\<rparr> = RAR_BAD_PASSWORD"
    using password_failures_share_one_code [of "\<lparr>err_no = 84, err_string = Some ''password required''\<rparr>"]
    by (simp add: ENOENT_def ENOMEM_def)
  have b: "map_archive_error_code \<lparr>err_no = 84, err_string = Some ''Incorrect password''\<rparr> = RAR_BAD_PASSWORD"
    using password_failures_share_one_code [of "\<lparr>err_no = 84, err_string = Some ''Incorrect password''\<rparr>"]
    by (simp add: ENOENT_def ENOMEM_def)
  have c: "map_archive_error_code \<lparr>err_no = 84, err_string = Some ''Truncated input''\<rparr> \<noteq> RAR_BAD_PASSWORD"
    using password_failures_share_one_code [of "\<lparr>err_no = 84, err_string = Some ''Truncated input''\<rparr>"]
    by (simp add: ENOENT_def ENOMEM_def)
  from a b c show ?thesis by simp
qed

section \<open>The error table\<close>

text \<open>
  Claim C4. The error-description operation is a total, static mapping: every integer
  gets a message of the table, the ten defined codes get ten different messages, and
  every integer outside \<open>0..9\<close> gets the generic message \<open>Unknown error\<close>.
\<close>

theorem rar_get_error_message_total:
  "rar_get_error_message c \<in> set error_messages
   \<and> (\<forall>d. 0 \<le> c \<and> c \<le> RAR_UNKNOWN_ERROR \<and> 0 \<le> d \<and> d \<le> RAR_UNKNOWN_ERROR
          \<and> rar_get_error_message c = rar_get_error_message d \<longrightarrow> c = d)
   \<and> (c < 0 \<or> c > RAR_UNKNOWN_ERROR \<longrightarrow> rar_get_error_message c = ''Unknown error'')"
proof (intro conjI allI impI)
  show "rar_get_error_message c \<in> set error_messages"
    by (rule message_in_table)
next
  fix d
  assume "0 \<le> c \<and> c \<le> RAR_UNKNOWN_ERROR \<and> 0 \<le> d \<and> d \<le> RAR_UNKNOWN_ERROR
          \<and> rar_get_error_message c = rar_get_error_message d"
  then show "c = d"
    using message_inj by blast
next
  assume "c < 0 \<or> c > RAR_UNKNOWN_ERROR"
  then show "rar_get_error_message c = ''Unknown error''"
    by (simp add: rar_get_error_message_def RAR_UNKNOWN_ERROR_def error_messages_def)
qed

text \<open>Claim C4 at the codes 7, 9, -1 and 10.\<close>

theorem rar_get_error_message_total_witness:
  "rar_get_error_message 7 = ''Incorrect password or password required''
   \<and> rar_get_error_message 7 \<noteq> rar_get_error_message 9
   \<and> rar_get_error_message (-1) = ''Unknown error''
   \<and> rar_get_error_message 10 = ''Unknown error''"
proof -
  have a: "rar_get_error_message 7 = ''Incorrect password or password required''"
    by (simp add: rar_get_error_message_def RAR_UNKNOWN_ERROR_def error_messages_def)
  have "0 \<le> (7::int) \<and> 7 \<le> RAR_UNKNOWN_ERROR \<and> 0 \<le> (9::int) \<and> 9 \<le> RAR_UNKNOWN_ERROR
          \<and> rar_get_error_message 7 = rar_get_error_message 9 \<longrightarrow> (7::int) = 9"
    using rar_get_error_message_total [of 7] by blast
  then have b: "rar_get_error_message 7 \<noteq> rar_get_error_message 9"
    by (simp add: RAR_UNKNOWN_ERROR_def)
  have c: "rar_get_error_message (-1) = ''Unknown error''"
    using rar_get_error_message_total [of "-1"] by simp
  have d: "rar_get_error_message 10 = ''Unknown error''"
    using rar_get_error_message_total [of 10] by (simp add: RAR_UNKNOWN_ERROR_def)
  from a b c d show ?thesis by simp
qed

section \<open>Listing\<close>

text \<open>
  Claim C5. An error met while the data of an entry is skipped should stop the listing
  and be reported. The code does not read the status of
  \<^verbatim>\<open>archive_read_data_skip\<close>: in the run below the skip of the first entry fails,
  yet the second entry is listed, no error is reported and the result is
  \<^verbatim>\<open>RAR_SUCCESS\<close>. (An error of \<^verbatim>\<open>archive_read_next_header\<close> does
  stop the listing, see \<open>rar_list_header_error\<close>.)
\<close>

theorem rar_list_ignores_skip_failure:
  "rar_list (ok_env (\<lambda>_. ok_archive [(plain_entry ''a.txt'')\<lparr>skip_status := ARCHIVE_FAILED\<rparr>,
                                       plain_entry ''b.txt'']))
     ''a.rar'' None True True
   = (RAR_SUCCESS, [Alloc, OpenFilename ''a.rar'', ListCb ''a.txt'', DataSkip,
                    ListCb ''b.txt'', DataSkip])"
  by (simp add: example_defs run_defs rar_codes)

text \<open>
  Claim C6. For an archive that opens and whose N headers are all read (each entry
  having a path), the listing succeeds and hands the listing callback exactly the N
  paths, one for each entry, in table order.
\<close>

theorem rar_list_emits_every_entry:
  assumes "fopen_ok env rar_path" and "alloc_ok env []"
    and "archive env rar_path (passphrases pw) = ar" and "open_status ar = ARCHIVE_OK"
    and "headers_ok (headers ar)" and "named (headers ar)"
  shows "fst (rar_list env rar_path pw True ecb) = RAR_SUCCESS
       \<and> listed (snd (rar_list env rar_path pw True ecb))
           = map (\<lambda>h. the (pathname (h_entry h))) (headers ar)
       \<and> length (listed (snd (rar_list env rar_path pw True ecb))) = length (headers ar)"
proof -
  define l where "l = list_loop (headers ar) True (tr_list_open rar_path pw)"
  have l: "fst l = ARCHIVE_EOF" "listed (snd (snd l)) = names (headers ar)"
    using list_loop_all_ok [OF assms(5), of True "tr_list_open rar_path pw"]
    by (simp_all add: l_def tr_list_open_proj)
  have "rar_list env rar_path pw True ecb = (RAR_SUCCESS, snd (snd l))"
    using assms(4) l(1) by (simp add: rar_list_unfold [OF assms(1-3)] l_def [symmetric])
  then show ?thesis
    using l(2) names_named [OF assms(6)] by simp
qed

text \<open>Claim C6 on an archive of two entries.\<close>

theorem rar_list_emits_every_entry_witness:
  "headers_ok (headers (ok_archive [plain_entry ''a.txt'', plain_entry ''dir/b.txt'']))
   \<and> named (headers (ok_archive [plain_entry ''a.txt'', plain_entry ''dir/b.txt'']))
   \<and> fst (rar_list (ok_env (\<lambda>_. ok_archive [plain_entry ''a.txt'', plain_entry ''dir/b.txt'']))
          ''a.rar'' None True True) = RAR_SUCCESS
   \<and> listed (snd (rar_list (ok_env (\<lambda>_. ok_archive [plain_entry ''a.txt'', plain_entry ''dir/b.txt'']))
          ''a.rar'' None True True)) = [''a.txt'', ''dir/b.txt'']"
proof -
  let ?ar = "ok_archive [plain_entry ''a.txt'', plain_entry ''dir/b.txt'']"
  let ?env = "ok_env (\<lambda>_. ?ar)"
  have 1: "fopen_ok ?env ''a.rar''" and 2: "alloc_ok ?env []"
    and 3: "archive ?env ''a.rar'' (passphrases None) = ?ar"
    by (simp_all add: ok_env_def)
  have 4: "open_status ?ar = ARCHIVE_OK"
    by (simp add: ok_archive_def)
  have 5: "headers_ok (headers ?ar)" and 6: "named (headers ?ar)"
    by (simp_all add: headers_ok_def named_def example_defs)
  show ?thesis
    using 5 6 rar_list_emits_every_entry [OF 1 2 3 4 5 6, of True]
    by (simp add: example_defs)
qed

section \<open>Empty archives and archives that do not open\<close>

text \<open>
  Claim C7. For an archive that opens and has no entry, listing returns
  \<^verbatim>\<open>RAR_SUCCESS\<close>, lists nothing and reports no error; and extraction, once the
  destination directory is there, returns \<^verbatim>\<open>RAR_SUCCESS\<close>, writes nothing and
  reports no error.
\<close>

theorem empty_archive_succeeds:
  assumes "fopen_ok env rar_path" and "\<forall>t. alloc_ok env t"
    and "archive env rar_path (passphrases pw) = ar" and "open_status ar = ARCHIVE_OK"
    and "no_entries (headers ar)"
  shows "fst (rar_list env rar_path pw lcb ecb) = RAR_SUCCESS
       \<and> listed (snd (rar_list env rar_path pw lcb ecb)) = []
       \<and> reported (snd (rar_list env rar_path pw lcb ecb)) = []
       \<and> (fst (create_directory_recursive env dest []) = 0 \<longrightarrow>
            fst (rar_extract env rar_path dest pw ecb) = Some RAR_SUCCESS
          \<and> written (snd (rar_extract env rar_path dest pw ecb)) = []
          \<and> reported (snd (rar_extract env rar_path dest pw ecb)) = [])"
proof -
  have a0: "alloc_ok env []"
    using assms(2) by simp
  have "rar_list env rar_path pw lcb ecb = (RAR_SUCCESS, tr_list_open rar_path pw)"
    using assms(4) list_loop_no_entries [OF assms(5), of lcb "tr_list_open rar_path pw"]
    by (simp add: rar_list_unfold [OF assms(1) a0 assms(3)] Let_def)
  moreover have "rar_extract env rar_path dest pw ecb
                   = (Some RAR_SUCCESS, tr_open env rar_path dest pw)"
    if c: "fst (create_directory_recursive env dest []) = 0"
  proof -
    obtain a where "extract_loop env dest ecb (headers ar) (tr_open env rar_path dest pw)
        = (Exited ARCHIVE_EOF RAR_SUCCESS a, tr_open env rar_path dest pw)"
      using extract_loop_no_entries [OF assms(5)] by blast
    then show ?thesis
      using assms(4) by (simp add: rar_extract_unfold [OF assms(1,2) c assms(3)])
  qed
  ultimately show ?thesis
    by (simp add: tr_list_open_proj tr_open_proj)
qed

text \<open>Claim C7 on the archive without entries.\<close>

theorem empty_archive_succeeds_witness:
  "no_entries (headers (ok_archive []))
   \<and> rar_list (ok_env (\<lambda>_. ok_archive [])) ''a.rar'' None True True
       = (RAR_SUCCESS, [Alloc, OpenFilename ''a.rar''])
   \<and> fst (rar_extract (ok_env (\<lambda>_. ok_archive [])) ''a.rar'' ''out'' None True)
       = Some RAR_SUCCESS
   \<and> written (snd (rar_extract (ok_env (\<lambda>_. ok_archive [])) ''a.rar'' ''out'' None True)) = []"
proof -
  let ?ar = "ok_archive []"
  let ?env = "ok_env (\<lambda>_. ?ar)"
  have 1: "fopen_ok ?env ''a.rar''" and 2: "\<forall>t. alloc_ok ?env t"
    and 3: "archive ?env ''a.rar'' (passphrases None) = ?ar"
    by (simp_all add: ok_env_def)
  have 4: "open_status ?ar = ARCHIVE_OK" and 5: "no_entries (headers ?ar)"
    by (simp_all add: ok_archive_def no_entries_def)
  have 6: "fst (create_directory_recursive ?env ''out'' []) = 0"
    by (simp add: ok_env_def create_directory_recursive_def sys_alloc_def Let_def)
  have l: "rar_list ?env ''a.rar'' None True True = (RAR_SUCCESS, [Alloc, OpenFilename ''a.rar''])"
    by (simp add: example_defs run_defs)
  show ?thesis
    using 5 6 l empty_archive_succeeds [OF 1 2 3 4 5, of True True "''out''"]
    by simp
qed

text \<open>
  Claim C8. When the archive does not open, both operations end there: the result is
  the code mapped from the error of the open, which is never \<^verbatim>\<open>RAR_SUCCESS\<close>;
  the effects end with the open and the report of its error; nothing is handed to the
  listing callback and nothing to the disk writer.
\<close>

theorem open_failure_aborts:
  assumes "fopen_ok env rar_path" and "\<forall>t. alloc_ok env t"
    and "archive env rar_path (passphrases pw) = ar" and "open_status ar \<noteq> ARCHIVE_OK"
  shows "rar_list env rar_path pw lcb ecb =
           (map_archive_error_code (open_error ar),
            [Alloc] @ map AddPassphrase (passphrases pw) @ [OpenFilename rar_path]
              @ error_events (open_error ar) ecb)
       \<and> listed (snd (rar_list env rar_path pw lcb ecb)) = []
       \<and> map_archive_error_code (open_error ar) \<noteq> RAR_SUCCESS
       \<and> (fst (create_directory_recursive env dest []) = 0 \<longrightarrow>
            rar_extract env rar_path dest pw ecb =
              (Some (map_archive_error_code (open_error ar)),
               tr_open env rar_path dest pw @ error_events (open_error ar) ecb)
          \<and> written (snd (rar_extract env rar_path dest pw ecb)) = [])"
proof -
  have a0: "alloc_ok env []"
    using assms(2) by simp
  have l: "rar_list env rar_path pw lcb ecb =
           (map_archive_error_code (open_error ar),
            [Alloc] @ map AddPassphrase (passphrases pw) @ [OpenFilename rar_path]
              @ error_events (open_error ar) ecb)"
    using assms(4) by (simp add: rar_list_unfold [OF assms(1) a0 assms(3)] tr_list_open_def)
  have e: "rar_extract env rar_path dest pw ecb =
           (Some (map_archive_error_code (open_error ar)),
            tr_open env rar_path dest pw @ error_events (open_error ar) ecb)"
    if c: "fst (create_directory_recursive env dest []) = 0"
    using assms(4) by (simp add: rar_extract_unfold [OF assms(1,2) c assms(3)] map_archive_error_snd)
  have w: "written (tr_open env rar_path dest pw @ error_events (open_error ar) ecb) = []"
    by (simp add: proj_simps error_events_proj tr_open_proj)
  have ll: "listed ([Alloc] @ map AddPassphrase (passphrases pw) @ [OpenFilename rar_path]
              @ error_events (open_error ar) ecb) = []"
    by (simp add: proj_simps error_events_proj)
  show ?thesis
    using l e w ll map_archive_error_code_nonzero [of "open_error ar"] by simp
qed

text \<open>Claim C8 on a file that is not an archive.\<close>

theorem open_failure_aborts_witness:
  "open_status (garbage_lib []) \<noteq> ARCHIVE_OK
   \<and> rar_list (ok_env garbage_lib) ''notes.txt'' None True True
       = (RAR_UNKNOWN_FORMAT,
          [Alloc, OpenFilename ''notes.txt'', ErrorCb ''Unrecognized archive format''])
   \<and> fst (rar_extract (ok_env garbage_lib) ''notes.txt'' ''out'' None True)
       = Some RAR_UNKNOWN_FORMAT
   \<and> written (snd (rar_extract (ok_env garbage_lib) ''notes.txt'' ''out'' None True)) = []"
proof -
  let ?env = "ok_env garbage_lib"
  have 1: "fopen_ok ?env ''notes.txt''" and 2: "\<forall>t. alloc_ok ?env t"
    and 3: "archive ?env ''notes.txt'' (passphrases None) = garbage_lib []"
    by (simp_all add: ok_env_def passphrases_def)
  have 4: "open_status (garbage_lib []) \<noteq> ARCHIVE_OK"
    by (simp add: garbage_lib_def)
  have 5: "fst (create_directory_recursive ?env ''out'' []) = 0"
    by (simp add: ok_env_def create_directory_recursive_def sys_alloc_def Let_def)
  have c: "map_archive_error_code (open_error (garbage_lib [])) = RAR_UNKNOWN_FORMAT"
    by (simp add: garbage_lib_def map_archive_error_code_def Let_def ENOENT_def ENOMEM_def)
  have ev: "error_events (open_error (garbage_lib [])) True = [ErrorCb ''Unrecognized archive format'']"
    by (simp add: garbage_lib_def error_events_def)
  note t = open_failure_aborts [OF 1 2 3 4, of True True "''out''"]
  from t have l: "rar_list ?env ''notes.txt'' None True True =
      (map_archive_error_code (open_error (garbage_lib [])),
       [Alloc] @ map AddPassphrase (passphrases None) @ [OpenFilename ''notes.txt'']
         @ error_events (open_error (garbage_lib [])) True)"
    by blast
  from t 5 have e: "rar_extract ?env ''notes.txt'' ''out'' None True =
      (Some (map_archive_error_code (open_error (garbage_lib []))),
       tr_open ?env ''notes.txt'' ''out'' None @ error_events (open_error (garbage_lib [])) True)"
    by blast
  from t 5 have w: "written (snd (rar_extract ?env ''notes.txt'' ''out'' None True)) = []"
    by blast
  have l': "rar_list ?env ''notes.txt'' None True True =
      (RAR_UNKNOWN_FORMAT,
       [Alloc, OpenFilename ''notes.txt'', ErrorCb ''Unrecognized archive format''])"
    unfolding l c ev by (simp add: passphrases_def)
  have e': "fst (rar_extract ?env ''notes.txt'' ''out'' None True) = Some RAR_UNKNOWN_FORMAT"
    unfolding e c by simp
  from 4 l' e' w show ?thesis
    by blast
qed

section \<open>The empty password\<close>

text \<open>
  Claim C9. An empty password is treated as no password: in both cases no passphrase is
  registered with the reader, and \<^verbatim>\<open>rar_extract\<close> and \<^verbatim>\<open>rar_list\<close> have
  the same result and the same effects with the one as with the other.
\<close>

theorem empty_password_is_no_password:
  "passphrases (Some []) = passphrases None
   \<and> passphrases None = []
   \<and> rar_extract env rar_path dest (Some []) ecb = rar_extract env rar_path dest None ecb
   \<and> rar_list env rar_path (Some []) lcb ecb = rar_list env rar_path None lcb ecb"
proof -
  have p: "passphrases (Some []) = passphrases None" and n: "passphrases None = []"
    by (simp_all add: passphrases_def)
  have e: "rar_extract env rar_path dest (Some []) ecb = rar_extract env rar_path dest None ecb"
    unfolding rar_extract_def p by (rule refl)
  have l: "rar_list env rar_path (Some []) lcb ecb = rar_list env rar_path None lcb ecb"
    unfolding rar_list_def p by (rule refl)
  from p n e l show ?thesis by simp
qed

text \<open>Claim C9 on an archive whose entry cannot be read without a passphrase.\<close>

theorem empty_password_is_no_password_witness:
  "rar_extract (ok_env locked_lib) ''a.rar'' ''out'' (Some '''') True
     = rar_extract (ok_env locked_lib) ''a.rar'' ''out'' None True
   \<and> fst (rar_extract (ok_env locked_lib) ''a.rar'' ''out'' (Some '''') True)
     = Some RAR_BAD_PASSWORD
   \<and> reported (snd (rar_extract (ok_env locked_lib) ''a.rar'' ''out'' (Some '''') True))
     = [''password required'']"
proof -
  have n: "rar_extract (ok_env locked_lib) ''a.rar'' ''out'' None True
     = (Some RAR_BAD_PASSWORD,
        [Alloc, Mkdir ''out'', Alloc, Alloc,
         SetOptions [ARCHIVE_EXTRACT_TIME, ARCHIVE_EXTRACT_PERM, ARCHIVE_EXTRACT_ACL,
                     ARCHIVE_EXTRACT_FFLAGS],
         OpenFilename ''a.rar'', Alloc, Alloc, Alloc, Mkdir ''out'',
         WriteHeader ''out/secret.txt'', ErrorCb ''password required''])"
    by (simp add: example_defs run_defs rar_codes)
  show ?thesis
    using empty_password_is_no_password [of "ok_env locked_lib" "''a.rar''" "''out''" True True]
    by (simp add: n proj_simps)
qed

section \<open>The destination directory\<close>

text \<open>
  Claim C10. When the archive file exists, \<^verbatim>\<open>rar_extract\<close> begins by calling
  \<^verbatim>\<open>mkdir\<close> on every ancestor written in the destination path and then on the
  destination path, before anything is done with the archive. When the archive then
  does not open, the call returns the code mapped from the error of the open, its
  effects are those \<^verbatim>\<open>mkdir\<close> calls followed by the open and the report of its
  error, and the \<^verbatim>\<open>mkdir\<close> of the destination has answered success or
  \<^verbatim>\<open>EEXIST\<close>: the directory is there although the call failed.
\<close>

theorem destination_created_before_open:
  assumes "fopen_ok env rar_path" and "alloc_ok env []"
    and "archive env rar_path (passphrases pw) = ar"
  shows "prefix (Alloc # map Mkdir (mkdir_calls dest)) (snd (rar_extract env rar_path dest pw ecb))
       \<and> dest \<in> set (mkdir_calls dest)
       \<and> (\<forall>a b. a \<noteq> [] \<and> dest = a @ PATH_SEP # b \<longrightarrow> a \<in> set (mkdir_calls dest))
       \<and> ((\<forall>t. alloc_ok env t) \<and> fst (create_directory_recursive env dest []) = 0
            \<and> open_status ar \<noteq> ARCHIVE_OK \<longrightarrow>
          rar_extract env rar_path dest pw ecb =
            (Some (map_archive_error_code (open_error ar)),
             Alloc # map Mkdir (mkdir_calls dest) @ [Alloc] @
             map AddPassphrase (passphrases pw) @
             [Alloc,
              SetOptions [ARCHIVE_EXTRACT_TIME, ARCHIVE_EXTRACT_PERM,
                          ARCHIVE_EXTRACT_ACL, ARCHIVE_EXTRACT_FFLAGS],
              OpenFilename rar_path] @
             error_events (open_error ar) ecb)
          \<and> (fst (mkdir_res env (Alloc # map Mkdir (butlast (mkdir_calls dest))) dest) = 0
              \<or> snd (mkdir_res env (Alloc # map Mkdir (butlast (mkdir_calls dest))) dest)
                  = EEXIST))"
proof -
  have c: "snd (create_directory_recursive env dest []) = Alloc # map Mkdir (mkdir_calls dest)"
    using assms(2) by (simp add: create_directory_recursive_snd)
  have 1: "prefix (Alloc # map Mkdir (mkdir_calls dest))
                  (snd (rar_extract env rar_path dest pw ecb))"
    using rar_extract_starts_with_mkdir [OF assms(1), of dest pw ecb] by (simp add: c)
  have 3: "\<forall>a b. a \<noteq> [] \<and> dest = a @ PATH_SEP # b \<longrightarrow> a \<in> set (mkdir_calls dest)"
    using mkdir_calls_ancestor by blast
  have 4: "rar_extract env rar_path dest pw ecb =
            (Some (map_archive_error_code (open_error ar)),
             Alloc # map Mkdir (mkdir_calls dest) @ [Alloc] @
             map AddPassphrase (passphrases pw) @
             [Alloc,
              SetOptions [ARCHIVE_EXTRACT_TIME, ARCHIVE_EXTRACT_PERM,
                          ARCHIVE_EXTRACT_ACL, ARCHIVE_EXTRACT_FFLAGS],
              OpenFilename rar_path] @
             error_events (open_error ar) ecb)"
    if "\<forall>t. alloc_ok env t" "fst (create_directory_recursive env dest []) = 0"
      "open_status ar \<noteq> ARCHIVE_OK"
    using that(3)
    by (simp add: rar_extract_unfold [OF assms(1) that(1,2) assms(3)] map_archive_error_snd
        tr_open_def c)
  have 5: "fst (mkdir_res env (Alloc # map Mkdir (butlast (mkdir_calls dest))) dest) = 0
           \<or> snd (mkdir_res env (Alloc # map Mkdir (butlast (mkdir_calls dest))) dest) = EEXIST"
    if "fst (create_directory_recursive env dest []) = 0"
    using that create_directory_recursive_fst [OF assms(2), of dest] by simp
  from 1 mkdir_calls_self [of dest] 3 4 5 show ?thesis
    by blast
qed

text \<open>Claim C10 on a file that is not an archive, extracted to \<open>/tmp/out\<close>.\<close>

theorem destination_created_before_open_witness:
  "fopen_ok (ok_env garbage_lib) ''notes.txt''
   \<and> open_status (garbage_lib []) \<noteq> ARCHIVE_OK
   \<and> mkdir_calls ''/tmp/out'' = [''/tmp'', ''/tmp/out'']
   \<and> rar_extract (ok_env garbage_lib) ''notes.txt'' ''/tmp/out'' None True =
       (Some RAR_UNKNOWN_FORMAT,
        [Alloc, Mkdir ''/tmp'', Mkdir ''/tmp/out'', Alloc, Alloc,
         SetOptions [ARCHIVE_EXTRACT_TIME, ARCHIVE_EXTRACT_PERM,
                     ARCHIVE_EXTRACT_ACL, ARCHIVE_EXTRACT_FFLAGS],
         OpenFilename ''notes.txt'', ErrorCb ''Unrecognized archive format''])"
proof -
  let ?env = "ok_env garbage_lib"
  have 1: "fopen_ok ?env ''notes.txt''" and 2: "alloc_ok ?env []"
    and 7: "\<forall>t. alloc_ok ?env t"
    and 3: "archive ?env ''notes.txt'' (passphrases None) = garbage_lib []"
    by (simp_all add: ok_env_def passphrases_def)
  have 4: "fst (create_directory_recursive ?env ''/tmp/out'' []) = 0"
    by (simp add: ok_env_def create_directory_recursive_def sys_alloc_def Let_def)
  have 5: "open_status (garbage_lib []) \<noteq> ARCHIVE_OK"
    by (simp add: garbage_lib_def)
  have m: "mkdir_calls ''/tmp/out'' = [''/tmp'', ''/tmp/out'']"
    by (simp add: mkdir_calls_def PATH_SEP_def)
  have c: "map_archive_error_code (open_error (garbage_lib [])) = RAR_UNKNOWN_FORMAT"
    by (simp add: garbage_lib_def map_archive_error_code_def Let_def ENOENT_def ENOMEM_def)
  have ev: "error_events (open_error (garbage_lib [])) True = [ErrorCb ''Unrecognized archive format'']"
    by (simp add: garbage_lib_def error_events_def)
  from destination_created_before_open [OF 1 2 3, of "''/tmp/out''" True] 7 4 5
  have "rar_extract ?env ''notes.txt'' ''/tmp/out'' None True =
            (Some (map_archive_error_code (open_error (garbage_lib []))),
             Alloc # map Mkdir (mkdir_calls ''/tmp/out'') @ [Alloc] @
             map AddPassphrase (passphrases None) @
             [Alloc,
              SetOptions [ARCHIVE_EXTRACT_TIME, ARCHIVE_EXTRACT_PERM,
                          ARCHIVE_EXTRACT_ACL, ARCHIVE_EXTRACT_FFLAGS],
              OpenFilename ''notes.txt''] @
             error_events (open_error (garbage_lib [])) True)"
    by blast
  then have "rar_extract ?env ''notes.txt'' ''/tmp/out'' None True =
       (Some RAR_UNKNOWN_FORMAT,
        [Alloc, Mkdir ''/tmp'', Mkdir ''/tmp/out'', Alloc, Alloc,
         SetOptions [ARCHIVE_EXTRACT_TIME, ARCHIVE_EXTRACT_PERM,
                     ARCHIVE_EXTRACT_ACL, ARCHIVE_EXTRACT_FFLAGS],
         OpenFilename ''notes.txt'', ErrorCb ''Unrecognized archive format''])"
    unfolding c ev m by (simp add: passphrases_def)
  with 1 5 m show ?thesis
    by blast
qed

end
